theory Spec2Isabelle
  imports Complex_Main "HOL-Library.Stream"
begin

section \<open>The environment of the program\<close>

text \<open>
  \<^verbatim>\<open>infinite_busy_cmd.py\<close> is a single Python module. Everything it does beyond computing
  strings goes through the interpreter's libraries: the global random source, the
  system clock, the terminal and (optionally) one HTTP request. The model threads one
  record, the \<open>world\<close>, through every function; a function that may raise returns a
  sum, with \<open>Inl\<close> the exception.

  \<^item> \<open>entropy\<close>: the random source. Each call into \<^verbatim>\<open>random\<close> takes the next element of an
    infinite stream of naturals; a call with \<open>n\<close> equally likely outcomes uses that
    element modulo \<open>n\<close>, and \<^verbatim>\<open>random.random()\<close> uses it modulo \<open>2^53\<close> as the numerator
    of a 53-bit fraction, which is how CPython builds its floats in \<open>[0, 1)\<close>.
  \<^item> \<open>now\<close>: the reading of \<^verbatim>\<open>time.time()\<close>. \<^verbatim>\<open>time.sleep(d)\<close> advances it by \<open>d\<close>; no
    other operation takes time.
  \<^item> \<open>wall\<close>: the successive results of \<^verbatim>\<open>datetime.now()\<close>.
  \<^item> \<open>net\<close>: the successive outcomes of \<^verbatim>\<open>requests.get\<close>.
  \<^item> \<open>out\<close>: what the program has done to the terminal so far, oldest first.

  Python floats are idealised as reals.
\<close>

datatype error = IndexError | KeyError | ValueError | ZeroDivisionError

record datetime =
  year :: nat
  month :: nat
  day :: nat
  hour :: nat
  minute :: nat
  second :: nat

datatype event =
    Print string string  \<comment> \<open>\<^verbatim>\<open>print(text, end=...)\<close>\<close>
  | OsSystem string      \<comment> \<open>\<^verbatim>\<open>os.system(command)\<close>\<close>

text \<open>
  The value of a key of the decoded JSON object, as far as \<^verbatim>\<open>str()\<close> of it matters.
  \<open>JOther\<close> stands for numbers, arrays and objects and carries the text \<^verbatim>\<open>str()\<close> gives.
\<close>

datatype jvalue = JString string | JNull | JTrue | JFalse | JOther string

datatype json_body =
    NotJson                           \<comment> \<open>\<^verbatim>\<open>resp.json()\<close> raises\<close>
  | NonObject                         \<comment> \<open>valid JSON that is not an object: no \<^verbatim>\<open>.get\<close>\<close>
  | Object "(string \<times> jvalue) list"   \<comment> \<open>a dict, as an association list\<close>

datatype http_outcome =
    RequestFailed                     \<comment> \<open>\<^verbatim>\<open>requests.get\<close> raises (connection error, timeout)\<close>
  | Response int json_body            \<comment> \<open>status code and body\<close>

record world =
  entropy :: "nat stream"
  now :: real
  wall :: "datetime stream"
  net :: "http_outcome stream"
  out :: "event list"

text \<open>
  The module's globals that are set once at start-up: \<^verbatim>\<open>COLOR\<close> (colorama imported and
  \<^verbatim>\<open>--no-color\<close> not given), whether \<^verbatim>\<open>requests\<close> could be imported, and whether
  \<^verbatim>\<open>sys.platform\<close> starts with \<^verbatim>\<open>win\<close>.
\<close>

record env =
  COLOR :: bool
  have_requests :: bool
  platform_win :: bool

definition bnd :: "error + 'a \<times> world \<Rightarrow> ('a \<Rightarrow> world \<Rightarrow> error + 'b \<times> world) \<Rightarrow> error + 'b \<times> world" where
  "bnd m f = (case m of Inl e \<Rightarrow> Inl e | Inr (x, w) \<Rightarrow> f x w)"

subsection \<open>Configuration\<close>

definition TICK_MIN :: real where "TICK_MIN = 0.05"
definition TICK_MAX :: real where "TICK_MAX = 0.5"
definition API_QUOTE_FREQ :: real where "API_QUOTE_FREQ = 0.08"
definition CLEAR_SCREEN_EVERY :: int where "CLEAR_SCREEN_EVERY = 200"
definition SHOW_PROGRESS_BARS :: bool where "SHOW_PROGRESS_BARS = True"
definition PROGRESS_BAR_CHANCE :: real where "PROGRESS_BAR_CHANCE = 0.06"
definition SPINNER_CHANCE :: real where "SPINNER_CHANCE = 0.04"

subsection \<open>Word banks and templates\<close>

definition adjectives :: "string list" where
  "adjectives = [
    ''optimized'', ''resilient'', ''concurrent'', ''deprecated'', ''asynchronous'',
    ''deterministic'', ''probabilistic'', ''scalable'', ''redundant'', ''compressed'',
    ''normalized'', ''encrypted'', ''authenticated'', ''verified'', ''transient'']"

definition verbs :: "string list" where
  "verbs = [
    ''initializing'', ''synchronizing'', ''compacting'', ''indexing'', ''migrating'',
    ''ingesting'', ''persisting'', ''validating'', ''replicating'', ''profiling'',
    ''seeding'', ''evicting'', ''flushing'', ''calibrating'', ''probing'']"

definition nouns :: "string list" where
  "nouns = [
    ''cluster'', ''shard'', ''manifest'', ''cache'', ''backplane'', ''registry'', ''snapshot'',
    ''transaction log'', ''pipeline'', ''matrix'', ''vector'', ''protocol'', ''kernel'',
    ''artifact'', ''handshake'', ''telemetry stream'']"

definition systems :: "string list" where
  "systems = [
    ''auth service'', ''payment gateway'', ''ingest worker'', ''analytics node'',
    ''time-series engine'', ''replicator'', ''orchestrator'', ''scheduler'', ''ETL job'']"

definition error_levels :: "string list" where
  "error_levels = [''INFO'', ''DEBUG'', ''WARN'', ''ERROR'', ''TRACE'', ''CRITICAL'']"

definition sentence_templates :: "string list" where
  "sentence_templates = [
    ''The {adj} {noun} {verb} {detail}.'',
    ''{verb_cap} {noun} in the {system} to satisfy integrity checks.'',
    ''Checkpoint reached: {noun} {verb} with {num} entries processed.'',
    ''{verb_cap} {noun}... {status}.'',
    ''User-visible latency improved by {pct}% after {verb} of the {noun}.'',
    ''Scheduling background {noun} for {system} at {time}.'',
    ''Rolling update: {noun} on {system} moved to {adj} state.'',
    ''Telemetry: {num} events/sec for {system} (p90 {ms}ms).'',
    ''Cache miss ratio at {pct}%, invoking {verb} routine.'',
    ''{system} reported: {detail}'']"

definition status_phrases :: "string list" where
  "status_phrases = [
    ''OK'', ''COMPLETE'', ''FAILED (retrying)'', ''PENDING'', ''QUEUED'', ''ABORTED'', ''SUCCESS'',
    ''PARTIAL SUCCESS'', ''TIMED OUT'', ''DEFERRED'']"

definition details :: "string list" where
  "details = [
    ''waiting for quorum'', ''performing sanity checks'', ''evicting stale entries'',
    ''applying adaptive backoff'', ''rebuilding index'', ''rotating keys'',
    ''reconciling state across zones'', ''compressing deltas'', ''validating checksums'']"

section \<open>The Python library, as far as the program uses it\<close>

subsection \<open>Strings\<close>

definition digit_char :: "nat \<Rightarrow> char" where
  "digit_char d = ''0123456789'' ! d"

fun str_nat :: "nat \<Rightarrow> string" where
  "str_nat n = (if n < 10 then [digit_char n] else str_nat (n div 10) @ [digit_char (n mod 10)])"

declare str_nat.simps [simp del]

text \<open>\<^verbatim>\<open>str(i)\<close> of an integer.\<close>

definition str_int :: "int \<Rightarrow> string" where
  "str_int i = (if i < 0 then CHR ''-'' # str_nat (nat (- i)) else str_nat (nat i))"

text \<open>\<^verbatim>\<open>s.rjust(n, c)\<close>: what the format specifications \<^verbatim>\<open>3d\<close> and \<^verbatim>\<open>%H\<close> pad with.\<close>

definition rjust :: "nat \<Rightarrow> char \<Rightarrow> string \<Rightarrow> string" where
  "rjust n c s = replicate (n - length s) c @ s"

text \<open>\<^verbatim>\<open>str.lower\<close> and \<^verbatim>\<open>str.capitalize\<close>, on ASCII.\<close>

definition lower_char :: "char \<Rightarrow> char" where
  "lower_char c =
     (case map_of (zip ''ABCDEFGHIJKLMNOPQRSTUVWXYZ'' ''abcdefghijklmnopqrstuvwxyz'') c of
        None \<Rightarrow> c | Some l \<Rightarrow> l)"

definition upper_char :: "char \<Rightarrow> char" where
  "upper_char c =
     (case map_of (zip ''abcdefghijklmnopqrstuvwxyz'' ''ABCDEFGHIJKLMNOPQRSTUVWXYZ'') c of
        None \<Rightarrow> c | Some u \<Rightarrow> u)"

definition lower :: "string \<Rightarrow> string" where
  "lower s = map lower_char s"

definition capitalize :: "string \<Rightarrow> string" where
  "capitalize s = (case s of [] \<Rightarrow> [] | c # cs \<Rightarrow> upper_char c # map lower_char cs)"

text \<open>
  \<^verbatim>\<open>round(x, 2)\<close>, as the number of hundredths (ties go to the even neighbour), and
  \<^verbatim>\<open>str()\<close> of the float it gives: the shortest decimal, with at least one digit after
  the point.
\<close>

definition round_half_even :: "real \<Rightarrow> int" where
  "round_half_even x =
     (let f = \<lfloor>x\<rfloor>; d = x - of_int f
      in if d < 1 / 2 then f else if 1 / 2 < d then f + 1 else if even f then f else f + 1)"

definition round2 :: "real \<Rightarrow> int" where
  "round2 x = round_half_even (x * 100)"

definition str_hundredths :: "int \<Rightarrow> string" where
  "str_hundredths h =
     (let a = nat \<bar>h\<bar>; frac = a mod 100
      in (if h < 0 then ''-'' else '''') @ str_nat (a div 100) @ ''.'' @
         (if frac mod 10 = 0 then [digit_char (frac div 10)]
          else [digit_char (frac div 10), digit_char (frac mod 10)]))"

text \<open>\<^verbatim>\<open>int(x)\<close> of a float truncates towards zero.\<close>

definition py_int :: "real \<Rightarrow> int" where
  "py_int x = (if 0 \<le> x then \<lfloor>x\<rfloor> else \<lceil>x\<rceil>)"

subsection \<open>\<^verbatim>\<open>str.format\<close> with keyword arguments\<close>

text \<open>
  A replacement field \<^verbatim>\<open>{name}\<close> is looked up among the keyword arguments; \<^verbatim>\<open>{{\<close> and
  \<^verbatim>\<open>}}\<close> are literal braces. A name that is not an argument raises \<^verbatim>\<open>KeyError\<close>, an empty
  name asks for a positional argument and raises \<^verbatim>\<open>IndexError\<close>, an unclosed or stray
  brace raises \<^verbatim>\<open>ValueError\<close>. Conversions (\<^verbatim>\<open>!r\<close>), format specifications (\<^verbatim>\<open>:3d\<close>) and
  attribute access inside a field do not occur in the templates and are not modelled.
  The arguments are passed already converted by \<^verbatim>\<open>str()\<close>.
\<close>

definition emit :: "string \<Rightarrow> error + string \<Rightarrow> error + string" where
  "emit s r = (case r of Inl e \<Rightarrow> Inl e | Inr t \<Rightarrow> Inr (s @ t))"

function format_str :: "(string \<times> string) list \<Rightarrow> string \<Rightarrow> error + string" where
  "format_str kw [] = Inr []"
| "format_str kw (c # cs) =
     (if c = CHR ''{'' then
        (if cs \<noteq> [] \<and> hd cs = CHR ''{'' then emit ''{'' (format_str kw (tl cs))
         else if CHR ''}'' \<notin> set cs then Inl ValueError
         else let name = takeWhile (\<lambda>x. x \<noteq> CHR ''}'') cs;
                  rest = tl (dropWhile (\<lambda>x. x \<noteq> CHR ''}'') cs)
              in if name = [] then Inl IndexError
                 else (case map_of kw name of
                         None \<Rightarrow> Inl KeyError
                       | Some v \<Rightarrow> emit v (format_str kw rest)))
      else if c = CHR ''}'' then
        (if cs \<noteq> [] \<and> hd cs = CHR ''}'' then emit ''}'' (format_str kw (tl cs))
         else Inl ValueError)
      else emit [c] (format_str kw cs))"
  by pat_completeness auto
termination
proof (relation "measure (\<lambda>(kw, s). length s)")
  fix kw :: "(string \<times> string) list" and c :: char and cs x xa :: string
  assume "xa = tl (dropWhile (\<lambda>x. x \<noteq> CHR ''}'') cs)"
  then show "((kw, xa), kw, c # cs) \<in> measure (\<lambda>(kw, s). length s)"
    using length_dropWhile_le [of "\<lambda>x. x \<noteq> CHR ''}''" cs] by simp
qed auto

subsection \<open>\<^verbatim>\<open>random\<close>\<close>

definition randbelow :: "nat \<Rightarrow> world \<Rightarrow> nat \<times> world" where
  "randbelow n w = (shd (entropy w) mod n, w\<lparr>entropy := stl (entropy w)\<rparr>)"

text \<open>\<^verbatim>\<open>random.random()\<close>: a float in \<open>[0, 1)\<close>.\<close>

definition random :: "world \<Rightarrow> real \<times> world" where
  "random w = (real (shd (entropy w) mod 2 ^ 53) / 2 ^ 53, w\<lparr>entropy := stl (entropy w)\<rparr>)"

text \<open>\<^verbatim>\<open>random.uniform(a, b)\<close> is \<^verbatim>\<open>a + (b - a) * random()\<close>.\<close>

definition uniform :: "real \<Rightarrow> real \<Rightarrow> world \<Rightarrow> real \<times> world" where
  "uniform a b w = (case random w of (r, w') \<Rightarrow> (a + (b - a) * r, w'))"

text \<open>\<^verbatim>\<open>random.randint(a, b)\<close>: both ends included; an empty range raises.\<close>

definition randint :: "int \<Rightarrow> int \<Rightarrow> world \<Rightarrow> error + int \<times> world" where
  "randint a b w =
     (if b < a then Inl ValueError
      else case randbelow (nat (b - a + 1)) w of (k, w') \<Rightarrow> Inr (a + int k, w'))"

text \<open>\<^verbatim>\<open>random.choice(seq)\<close>: an empty sequence raises.\<close>

definition choice :: "'a list \<Rightarrow> world \<Rightarrow> error + 'a \<times> world" where
  "choice xs w =
     (if xs = [] then Inl IndexError
      else case randbelow (length xs) w of (k, w') \<Rightarrow> Inr (xs ! k, w'))"

text \<open>
  \<^verbatim>\<open>random.choices(population, weights)[0]\<close>: the cumulative weights are bisected at
  \<^verbatim>\<open>random() * total\<close>, among all of them but the last. On increasing cumulative
  weights, as the program's are, \<^verbatim>\<open>bisect\<close> counts the entries that are at most its
  argument.
\<close>

fun accumulate :: "real \<Rightarrow> real list \<Rightarrow> real list" where
  "accumulate a [] = []"
| "accumulate a (x # xs) = (a + x) # accumulate (a + x) xs"

definition choices1 :: "'a list \<Rightarrow> real list \<Rightarrow> world \<Rightarrow> error + 'a \<times> world" where
  "choices1 population weights w =
     (let cum = accumulate 0 weights in
      if length cum \<noteq> length population then Inl ValueError
      else if population = [] then Inl IndexError
      else if last cum \<le> 0 then Inl ValueError
      else case random w of (r, w') \<Rightarrow>
        Inr (population ! length (filter (\<lambda>c. c \<le> r * last cum) (butlast cum)), w'))"

subsection \<open>Clock, terminal\<close>

definition time_time :: "world \<Rightarrow> real" where
  "time_time w = now w"

text \<open>\<^verbatim>\<open>time.sleep(d)\<close>: a negative duration raises.\<close>

definition time_sleep :: "real \<Rightarrow> world \<Rightarrow> error + world" where
  "time_sleep d w = (if d < 0 then Inl ValueError else Inr (w\<lparr>now := now w + d\<rparr>))"

definition datetime_now :: "world \<Rightarrow> datetime \<times> world" where
  "datetime_now w = (shd (wall w), w\<lparr>wall := stl (wall w)\<rparr>)"

definition pad2 :: "nat \<Rightarrow> string" where
  "pad2 n = rjust 2 CHR ''0'' (str_nat n)"

text \<open>\<^verbatim>\<open>strftime("%H:%M:%S")\<close> and \<^verbatim>\<open>strftime("%Y-%m-%d %H:%M:%S")\<close>.\<close>

definition strftime_HMS :: "datetime \<Rightarrow> string" where
  "strftime_HMS d = pad2 (hour d) @ '':'' @ pad2 (minute d) @ '':'' @ pad2 (second d)"

definition strftime_YmdHMS :: "datetime \<Rightarrow> string" where
  "strftime_YmdHMS d =
     rjust 4 CHR ''0'' (str_nat (year d)) @ ''-'' @ pad2 (month d) @ ''-'' @ pad2 (day d) @
     '' '' @ strftime_HMS d"

definition print :: "string \<Rightarrow> string \<Rightarrow> world \<Rightarrow> world" where
  "print text end w = w\<lparr>out := out w @ [Print text end]\<rparr>"

definition os_system :: "string \<Rightarrow> world \<Rightarrow> world" where
  "os_system command w = w\<lparr>out := out w @ [OsSystem command]\<rparr>"

section \<open>Helpers\<close>

definition now_ts :: "world \<Rightarrow> string \<times> world" where
  "now_ts w = (case datetime_now w of (d, w') \<Rightarrow> (strftime_YmdHMS d, w'))"

text \<open>
  \<^verbatim>\<open>pick\<close>: the keyword arguments are evaluated in the order they are written, so every
  call takes ten draws from the random source and then one reading of the wall clock,
  whatever the template uses.
\<close>

definition pick :: "string \<Rightarrow> world \<Rightarrow> error + string \<times> world" where
  "pick template w0 =
     bnd (choice adjectives w0) (\<lambda>adj w1.
     bnd (choice verbs w1) (\<lambda>verb w2.
     bnd (choice verbs w2) (\<lambda>verb_cap w3.
     bnd (choice nouns w3) (\<lambda>noun w4.
     bnd (choice systems w4) (\<lambda>system w5.
     bnd (randint 1 99999 w5) (\<lambda>num w6.
     case uniform 0.1 99.9 w6 of (pct, w7) \<Rightarrow>
     bnd (randint 1 1200 w7) (\<lambda>ms w8.
     bnd (choice status_phrases w8) (\<lambda>status w9.
     bnd (choice details w9) (\<lambda>detail w10.
     case datetime_now w10 of (t, w11) \<Rightarrow>
     (case format_str
             [(''adj'', adj), (''verb'', verb), (''verb_cap'', capitalize verb_cap),
              (''noun'', noun), (''system'', system), (''num'', str_int num),
              (''pct'', str_hundredths (round2 pct)), (''ms'', str_int ms),
              (''status'', status), (''detail'', detail), (''time'', strftime_HMS t)]
             template of
        Inl e \<Rightarrow> Inl e
      | Inr s \<Rightarrow> Inr (s, w11)))))))))))"

text \<open>The colorama escape sequences the program uses.\<close>

definition ESC :: char where "ESC = CHR 0x1B"
definition Fore_RED :: string where "Fore_RED = ESC # ''[31m''"
definition Fore_GREEN :: string where "Fore_GREEN = ESC # ''[32m''"
definition Fore_YELLOW :: string where "Fore_YELLOW = ESC # ''[33m''"
definition Fore_MAGENTA :: string where "Fore_MAGENTA = ESC # ''[35m''"
definition Fore_CYAN :: string where "Fore_CYAN = ESC # ''[36m''"
definition Fore_WHITE :: string where "Fore_WHITE = ESC # ''[37m''"
definition Style_RESET_ALL :: string where "Style_RESET_ALL = ESC # ''[0m''"

definition colored :: "env \<Rightarrow> string \<Rightarrow> string \<Rightarrow> string" where
  "colored env s color = (if \<not> COLOR env then s else color @ s @ Style_RESET_ALL)"

text \<open>\<^verbatim>\<open>str(data.get(key))\<close>: a missing key gives \<^verbatim>\<open>None\<close>.\<close>

definition str_get :: "(string \<times> jvalue) list \<Rightarrow> string \<Rightarrow> string" where
  "str_get data key =
     (case map_of data key of
        None \<Rightarrow> ''None''
      | Some (JString t) \<Rightarrow> t
      | Some JNull \<Rightarrow> ''None''
      | Some JTrue \<Rightarrow> ''True''
      | Some JFalse \<Rightarrow> ''False''
      | Some (JOther t) \<Rightarrow> t)"

text \<open>The em dash of the quote line, in UTF-8.\<close>

definition em_dash :: string where
  "em_dash = [CHR 0xE2, CHR 0x80, CHR 0x94]"

text \<open>
  \<^verbatim>\<open>fetch_quote\<close>: \<open>None\<close> is Python's \<^verbatim>\<open>None\<close>. Every exception raised inside the
  \<^verbatim>\<open>try\<close> block is caught there: by \<^verbatim>\<open>requests.get\<close>, by \<^verbatim>\<open>resp.json()\<close>, and by
  \<^verbatim>\<open>data.get\<close> when the decoded value is not a dict.
\<close>

definition fetch_quote :: "env \<Rightarrow> world \<Rightarrow> string option \<times> world" where
  "fetch_quote env w =
     (if \<not> have_requests env then (None, w)
      else let w' = w\<lparr>net := stl (net w)\<rparr> in
        case shd (net w) of
          RequestFailed \<Rightarrow> (None, w')
        | Response status_code body \<Rightarrow>
            if status_code = 200 then
              (case body of
                 NotJson \<Rightarrow> (None, w')
               | NonObject \<Rightarrow> (None, w')
               | Object data \<Rightarrow>
                   (Some ([CHR 0x22] @ str_get data ''content'' @ [CHR 0x22] @ '' '' @ em_dash @ '' '' @
                          str_get data ''author''), w'))
            else (None, w'))"

section \<open>Fancy bits\<close>

definition bar_text :: "real \<Rightarrow> int \<Rightarrow> string" where
  "bar_text fraction width =
     (let done = py_int (fraction * real_of_int width)
      in ''['' @ replicate (nat done) CHR ''#'' @ replicate (nat (width - done)) CHR ''.'' @
         ''] '' @ rjust 3 CHR '' '' (str_int (py_int (fraction * 100))) @ ''%'')"

text \<open>
  The loop of \<^verbatim>\<open>progress_bar_simulation\<close>. It does not return when the duration is
  negative, so it is a partial function: \<open>None\<close> is "runs forever". A duration of zero
  raises at the division. \<^verbatim>\<open>sys.stdout.flush()\<close> changes nothing the model records.
\<close>

partial_function (option) progress_loop ::
  "env \<Rightarrow> real \<Rightarrow> real \<Rightarrow> int \<Rightarrow> world \<Rightarrow> (error + world) option" where
  "progress_loop env start duration width w =
     (let elapsed = time_time w - start in
      if duration = 0 then Some (Inl ZeroDivisionError)
      else let frac = min 1 (elapsed / duration);
               bar = bar_text frac width
           in case now_ts w of (ts, w1) \<Rightarrow>
              let w2 = print (colored env (ts @ '' '' @ bar @ ''  (updating...)'')
                                (if COLOR env then Fore_GREEN else [])) [CHR 0x0D] w1
              in if 1 \<le> frac then Some (Inr w2)
                 else case random w2 of (r, w3) \<Rightarrow>
                   (case time_sleep (0.06 + r * 0.08) w3 of
                      Inl e \<Rightarrow> Some (Inl e)
                    | Inr w4 \<Rightarrow> progress_loop env start duration width w4))"

definition progress_bar_simulation :: "env \<Rightarrow> real \<Rightarrow> int \<Rightarrow> world \<Rightarrow> (error + world) option" where
  "progress_bar_simulation env duration width w =
     (case progress_loop env (time_time w) duration width w of
        None \<Rightarrow> None
      | Some (Inl e) \<Rightarrow> Some (Inl e)
      | Some (Inr w') \<Rightarrow> Some (Inr (print [] [CHR 0x0A] w')))"

text \<open>The four glyphs \<^verbatim>\<open>|/-\\<close> of the spinner.\<close>

definition spinner_seq :: string where
  "spinner_seq = [CHR ''|'', CHR ''/'', CHR ''-'', CHR 0x5C]"

partial_function (option) spinner_loop ::
  "real \<Rightarrow> real \<Rightarrow> nat \<Rightarrow> world \<Rightarrow> (error + world) option" where
  "spinner_loop t0 duration i w =
     (if time_time w - t0 < duration then
        (case now_ts w of (ts, w1) \<Rightarrow>
           let glyph = spinner_seq ! (i mod length spinner_seq);
               w2 = print (ts @ '' '' @ (glyph # '' working...'')) [CHR 0x0D] w1
           in (case time_sleep 0.08 w2 of
                 Inl e \<Rightarrow> Some (Inl e)
               | Inr w3 \<Rightarrow> spinner_loop t0 duration (i + 1) w3))
      else Some (Inr w))"

definition spinner :: "real \<Rightarrow> world \<Rightarrow> (error + world) option" where
  "spinner duration w =
     (case spinner_loop (time_time w) duration 0 w of
        None \<Rightarrow> None
      | Some (Inl e) \<Rightarrow> Some (Inl e)
      | Some (Inr w') \<Rightarrow> Some (Inr (print [] [CHR 0x0A] w')))"

section \<open>The main loop\<close>

text \<open>
  The body of \<^verbatim>\<open>while True\<close> in \<^verbatim>\<open>main\<close>, in the order of the source: the screen clear,
  the progress bar, the spinner, the quote, the generated line.
\<close>

definition clear_due :: "int \<Rightarrow> int \<Rightarrow> bool" where
  "clear_due clear_every line_counter \<longleftrightarrow>
     clear_every \<noteq> 0 \<and> 0 < clear_every \<and> line_counter \<noteq> 0 \<and> line_counter mod clear_every = 0"

definition clear_screen :: "env \<Rightarrow> world \<Rightarrow> world" where
  "clear_screen env w =
     (let w1 = os_system (if platform_win env then ''cls'' else ''clear'') w
      in case now_ts w1 of (ts, w2) \<Rightarrow>
           print (if COLOR env then colored env (ts @ '' [SYSTEM] Switched display buffer.'') Fore_CYAN
                  else ts @ '' [SYSTEM] Switched display buffer.'') [CHR 0x0A] w2)"

text \<open>
  The values the line generator computes on the way to \<^verbatim>\<open>log_line\<close>: the templates it
  chose (one or two), the sentence \<^verbatim>\<open>s\<close> (field \<open>sentence\<close>), the level, the process id, the command
  fragment if one was appended, and the line.
\<close>

record line_vars =
  tmpls :: "string list"
  sentence :: string
  lvl :: string
  pid :: int
  cmd :: "string option"
  log_line :: string

definition commands :: "string list" where
  "commands = [
    ''run-migration'', ''sync-index'', ''rotate-keys'', ''reconcile --fast'',
    ''snapshot --compress'', ''audit --level=high'', ''throttle --limit=200'']"

definition build_sentence :: "world \<Rightarrow> error + (string list \<times> string) \<times> world" where
  "build_sentence w0 =
     (case random w0 of (r, w1) \<Rightarrow>
        if r < 0.35 then
          bnd (choice sentence_templates w1) (\<lambda>t1 w2.
          bnd (pick t1 w2) (\<lambda>s1 w3.
          bnd (choice sentence_templates w3) (\<lambda>t2 w4.
          bnd (pick t2 w4) (\<lambda>s2 w5.
          Inr (([t1, t2], s1 @ '' '' @ lower s2), w5)))))
        else
          bnd (choice sentence_templates w1) (\<lambda>t w2.
          bnd (pick t w2) (\<lambda>s1 w3.
          Inr (([t], s1), w3))))"

definition build_line :: "world \<Rightarrow> error + line_vars \<times> world" where
  "build_line w0 =
     bnd (build_sentence w0) (\<lambda>(ts, s) w1.
     bnd (choices1 error_levels [40, 25, 15, 8, 8, 4] w1) (\<lambda>lvl w2.
     bnd (randint 1000 99999 w2) (\<lambda>pid w3.
     case now_ts w3 of (stamp, w4) \<Rightarrow>
     let log_line = stamp @ '' ['' @ lvl @ ''] (pid:'' @ str_int pid @ '') '' @ s
     in case random w4 of (r, w5) \<Rightarrow>
        if r < 0.22 then
          bnd (choice commands w5) (\<lambda>cmd w6.
          Inr (\<lparr>tmpls = ts, sentence = s, lvl = lvl, pid = pid, cmd = Some cmd,
                log_line = log_line @ ''  cmd: '' @ cmd\<rparr>, w6))
        else
          Inr (\<lparr>tmpls = ts, sentence = s, lvl = lvl, pid = pid, cmd = None,
                log_line = log_line\<rparr>, w5))))"

definition print_line :: "env \<Rightarrow> line_vars \<Rightarrow> world \<Rightarrow> world" where
  "print_line env v w =
     (if COLOR env then
        (if lvl v \<in> set [''ERROR'', ''CRITICAL''] then print (colored env (log_line v) Fore_RED) [CHR 0x0A] w
         else if lvl v = ''WARN'' then print (colored env (log_line v) Fore_YELLOW) [CHR 0x0A] w
         else if lvl v = ''DEBUG'' then print (colored env (log_line v) Fore_CYAN) [CHR 0x0A] w
         else print (colored env (log_line v) Fore_WHITE) [CHR 0x0A] w)
      else print (log_line v) [CHR 0x0A] w)"

text \<open>Lines 194 to 228: build the line, print it, count it, pause.\<close>

definition emit_line :: "env \<Rightarrow> int \<times> world \<Rightarrow> error + int \<times> world" where
  "emit_line env st =
     (case st of (line_counter, w0) \<Rightarrow>
        bnd (build_line w0) (\<lambda>v w1.
        let w2 = print_line env v w1
        in case uniform TICK_MIN TICK_MAX w2 of (u, w3) \<Rightarrow>
           case random w3 of (r, w4) \<Rightarrow>
           (case time_sleep (u * (0.6 + r)) w4 of
              Inl e \<Rightarrow> Inl e
            | Inr w5 \<Rightarrow> Inr (line_counter + 1, w5))))"

text \<open>Lines 184 to 228: the quote if one is due and can be fetched, else the generated line.\<close>

definition quote_or_line :: "env \<Rightarrow> bool \<Rightarrow> int \<times> world \<Rightarrow> (error + int \<times> world) option" where
  "quote_or_line env use_api st =
     (case st of (line_counter, w0) \<Rightarrow>
        if use_api \<and> have_requests env then
          (case random w0 of (r, w1) \<Rightarrow>
             if r < API_QUOTE_FREQ then
               (case fetch_quote env w1 of (q, w2) \<Rightarrow>
                  (case q of
                     None \<Rightarrow> Some (emit_line env (line_counter, w2))
                   | Some text \<Rightarrow>
                       if text = [] then Some (emit_line env (line_counter, w2))
                       else (case now_ts w2 of (ts, w3) \<Rightarrow>
                         let w4 = print (if COLOR env
                                         then colored env (ts @ '' QUOTE: '' @ text) Fore_MAGENTA
                                         else ts @ '' QUOTE: '' @ text) [CHR 0x0A] w3
                         in case uniform TICK_MIN TICK_MAX w4 of (u, w5) \<Rightarrow>
                            (case time_sleep (u + 0.15) w5 of
                               Inl e \<Rightarrow> Some (Inl e)
                             | Inr w6 \<Rightarrow> Some (Inr (line_counter + 1, w6))))))
             else Some (emit_line env (line_counter, w1)))
        else Some (emit_line env (line_counter, w0)))"

text \<open>Lines 179 to 228: the spinner if one is drawn, else the quote or the line.\<close>

definition spinner_or_rest :: "env \<Rightarrow> bool \<Rightarrow> int \<times> world \<Rightarrow> (error + int \<times> world) option" where
  "spinner_or_rest env use_api st =
     (case st of (line_counter, w0) \<Rightarrow>
        case random w0 of (r, w1) \<Rightarrow>
          if r < SPINNER_CHANCE then
            (case uniform 0.6 1.8 w1 of (d, w2) \<Rightarrow>
               (case spinner d w2 of
                  None \<Rightarrow> None
                | Some (Inl e) \<Rightarrow> Some (Inl e)
                | Some (Inr w3) \<Rightarrow> Some (Inr (line_counter + 2, w3))))
          else quote_or_line env use_api (line_counter, w1))"

definition main_iter :: "env \<Rightarrow> bool \<Rightarrow> int \<Rightarrow> int \<times> world \<Rightarrow> (error + int \<times> world) option" where
  "main_iter env use_api clear_every st =
     (case st of (line_counter, w0) \<Rightarrow>
        let w1 = (if clear_due clear_every line_counter then clear_screen env w0 else w0)
        in if SHOW_PROGRESS_BARS then
             (case random w1 of (r, w2) \<Rightarrow>
                if r < PROGRESS_BAR_CHANCE then
                  (case uniform 0.8 2.5 w2 of (d, w3) \<Rightarrow>
                     (case progress_bar_simulation env d 30 w3 of
                        None \<Rightarrow> None
                      | Some (Inl e) \<Rightarrow> Some (Inl e)
                      | Some (Inr w4) \<Rightarrow> Some (Inr (line_counter + 3, w4))))
                else spinner_or_rest env use_api (line_counter, w2))
           else spinner_or_rest env use_api (line_counter, w1))"

text \<open>
  The loop ends only when \<^verbatim>\<open>KeyboardInterrupt\<close> is raised. The model takes the number of
  iterations completed before the interrupt as a parameter, and delivers the interrupt
  between two iterations.
\<close>

fun main_loop :: "env \<Rightarrow> bool \<Rightarrow> int \<Rightarrow> nat \<Rightarrow> int \<times> world \<Rightarrow> (error + int \<times> world) option" where
  "main_loop env use_api clear_every 0 st = Some (Inr st)"
| "main_loop env use_api clear_every (Suc n) st =
     (case main_iter env use_api clear_every st of
        None \<Rightarrow> None
      | Some (Inl e) \<Rightarrow> Some (Inl e)
      | Some (Inr st') \<Rightarrow> main_loop env use_api clear_every n st')"

definition farewell :: "env \<Rightarrow> world \<Rightarrow> world" where
  "farewell env w =
     (case now_ts w of (ts, w1) \<Rightarrow>
        print (if COLOR env then [CHR 0x0A] @ colored env (ts @ '' [SYSTEM] Interrupted by user. Exiting.'') Fore_CYAN
               else [CHR 0x0A] @ ts @ '' [SYSTEM] Interrupted by user. Exiting.'') [CHR 0x0A] w1)"

definition main :: "env \<Rightarrow> bool \<Rightarrow> int \<Rightarrow> nat \<Rightarrow> world \<Rightarrow> (error + world) option" where
  "main env use_api clear_every n w =
     (case main_loop env use_api clear_every n (0, w) of
        None \<Rightarrow> None
      | Some (Inl e) \<Rightarrow> Some (Inl e)
      | Some (Inr (line_counter, w')) \<Rightarrow> Some (Inr (farewell env w')))"

text \<open>How often the screen has been cleared: the \<^verbatim>\<open>os.system\<close> calls in the output.\<close>

definition is_clear :: "event \<Rightarrow> bool" where
  "is_clear e = (case e of OsSystem c \<Rightarrow> True | Print t e \<Rightarrow> False)"

definition clears :: "world \<Rightarrow> nat" where
  "clears w = length (filter is_clear (out w))"

section \<open>Auxiliary definitions\<close>

text \<open>
  The world after one draw from the random source, after one reading of the wall clock,
  and after one call of \<open>pick\<close> (ten draws and one reading).
\<close>

definition after_draw :: "world \<Rightarrow> world" where
  "after_draw w = w\<lparr>entropy := stl (entropy w)\<rparr>"

definition after_now :: "world \<Rightarrow> world" where
  "after_now w = w\<lparr>wall := stl (wall w)\<rparr>"

definition after_pick :: "world \<Rightarrow> world" where
  "after_pick w = w\<lparr>entropy := sdrop 10 (entropy w), wall := stl (wall w)\<rparr>"

definition stamp_of :: "world \<Rightarrow> string" where
  "stamp_of w = strftime_YmdHMS (shd (wall w))"

text \<open>
  Two worlds have the same sources when their random sources and their wall clocks
  agree; two results agree when they raise the same exception or return the same value
  in worlds with the same sources.
\<close>

definition same_sources :: "world \<Rightarrow> world \<Rightarrow> bool" where
  "same_sources w1 w2 \<longleftrightarrow> entropy w1 = entropy w2 \<and> wall w1 = wall w2"

definition agree :: "error + 'a \<times> world \<Rightarrow> error + 'a \<times> world \<Rightarrow> bool" where
  "agree r1 r2 =
     (case r1 of
        Inl e1 \<Rightarrow> (case r2 of Inl e2 \<Rightarrow> e1 = e2 | Inr p2 \<Rightarrow> False)
      | Inr p1 \<Rightarrow> (case r2 of Inl e2 \<Rightarrow> False
                           | Inr p2 \<Rightarrow> fst p1 = fst p2 \<and> same_sources (snd p1) (snd p2)))"

text \<open>
  The outcomes of the request on which \<^verbatim>\<open>fetch_quote\<close> has no quote to return: the
  request raises, the status is not 200, the body is not JSON, or it is JSON but not an
  object. The fetch fails in a world when \<^verbatim>\<open>requests\<close> is missing or the next outcome
  of the network is one of these.
\<close>

definition is_failure :: "http_outcome \<Rightarrow> bool" where
  "is_failure r =
     (case r of
        RequestFailed \<Rightarrow> True
      | Response status_code body \<Rightarrow> status_code \<noteq> 200 \<or> body = NotJson \<or> body = NonObject)"

definition fetch_fails :: "env \<Rightarrow> world \<Rightarrow> bool" where
  "fetch_fails env w \<longleftrightarrow> \<not> have_requests env \<or> is_failure (shd (net w))"

text \<open>
  Reading the percentage back from a frame of the progress bar: the number between
  the closing bracket of the bar and the percent sign. The frames are the texts printed
  with a carriage return as their end.
\<close>

definition is_digit :: "char \<Rightarrow> bool" where
  "is_digit c \<longleftrightarrow> c \<in> set ''0123456789''"

definition digit_val :: "char \<Rightarrow> nat" where
  "digit_val c =
     (case map_of (zip ''0123456789'' [0, 1, 2, 3, 4, 5, 6, 7, 8, 9]) c of
        None \<Rightarrow> 0 | Some d \<Rightarrow> d)"

definition read_nat :: "string \<Rightarrow> nat" where
  "read_nat ds = foldl (\<lambda>a c. 10 * a + digit_val c) 0 ds"

definition read_int :: "string \<Rightarrow> int" where
  "read_int t =
     (case dropWhile (\<lambda>c. c = CHR '' '') t of
        [] \<Rightarrow> 0
      | c # ds \<Rightarrow> if c = CHR ''-'' then - int (read_nat ds) else int (read_nat (c # ds)))"

definition shown_percent :: "string \<Rightarrow> int" where
  "shown_percent frame =
     read_int (takeWhile (\<lambda>c. c \<noteq> CHR ''%'') (tl (dropWhile (\<lambda>c. c \<noteq> CHR '']'') frame)))"

fun frame_texts :: "event list \<Rightarrow> string list" where
  "frame_texts [] = []"
| "frame_texts (Print frame e # es) =
     (if e = [CHR 0x0D] then frame # frame_texts es else frame_texts es)"
| "frame_texts (OsSystem c # es) = frame_texts es"

definition shown_percents :: "event list \<Rightarrow> int list" where
  "shown_percents es = map shown_percent (frame_texts es)"

subsection \<open>Example worlds\<close>

text \<open>
  A world whose random source yields the given numbers and then zeros, whose wall clock
  stands still at the given time, and whose network is down.
\<close>

definition world_at :: "datetime \<Rightarrow> nat list \<Rightarrow> world" where
  "world_at d draws = \<lparr>entropy = draws @- sconst 0, now = 0, wall = sconst d,
      net = sconst RequestFailed, out = []\<rparr>"

definition example_datetime :: datetime where
  "example_datetime = \<lparr>year = 2024, month = 1, day = 2, hour = 3, minute = 4, second = 5\<rparr>"

definition later_datetime :: datetime where
  "later_datetime = \<lparr>year = 2025, month = 6, day = 7, hour = 8, minute = 9, second = 10\<rparr>"

definition plain_env :: env where
  "plain_env = \<lparr>COLOR = False, have_requests = True, platform_win = False\<rparr>"

definition world_of :: "nat list \<Rightarrow> world" where
  "world_of draws = world_at example_datetime draws"

text \<open>
  Draws for one line from a single template: no second sentence (\<open>2^52\<close> is the fraction
  one half), the first template, ten draws for \<open>pick\<close>, the level, the process id, and
  the draw that decides on the command fragment.
\<close>

definition draws_plain :: "nat list" where
  "draws_plain = [4503599627370496, 0, 0, 0, 0, 0, 0, 0, 0, 0, 0, 0, 0, 98999, 4503599627370496]"

definition draws_cmd :: "nat list" where
  "draws_cmd = [4503599627370496, 0, 0, 0, 0, 0, 0, 0, 0, 0, 0, 0, 0, 0, 0, 0]"

section \<open>Evaluating the library\<close>

lemmas lib_defs = bnd_def choice_def randbelow_def randint_def uniform_def random_def
  datetime_now_def emit_def

lemmas bank_defs = adjectives_def verbs_def nouns_def systems_def status_phrases_def details_def

lemma snth_numeral: "xs !! numeral k = stl xs !! pred_numeral k"
  by (simp add: numeral_eq_Suc)

lemma sdrop_numeral: "sdrop (numeral k) xs = sdrop (pred_numeral k) (stl xs)"
  by (simp add: numeral_eq_Suc)

lemma case_random: "(case random w of (r, w') \<Rightarrow> f r w') = f (fst (random w)) (after_draw w)"
  by (simp add: random_def after_draw_def)

lemma case_uniform:
  "(case uniform a b w of (u, w') \<Rightarrow> f u w') = f (a + (b - a) * fst (random w)) (after_draw w)"
  by (simp add: uniform_def random_def after_draw_def)

lemma case_datetime_now:
  "(case datetime_now w of (d, w') \<Rightarrow> f d w') = f (shd (wall w)) (after_now w)"
  by (simp add: datetime_now_def after_now_def)

lemma now_ts_eq: "now_ts w = (stamp_of w, after_now w)"
  by (simp add: now_ts_def datetime_now_def stamp_of_def after_now_def)

lemma random_range: "0 \<le> fst (random w)" "fst (random w) < 1"
  by (simp_all add: random_def)

lemma out_after [simp]:
  "out (after_draw w) = out w" "out (after_pick w) = out w" "out (after_now w) = out w"
  by (simp_all add: after_draw_def after_pick_def after_now_def)

lemma now_after [simp]:
  "now (after_draw w) = now w" "now (after_pick w) = now w" "now (after_now w) = now w"
  by (simp_all add: after_draw_def after_pick_def after_now_def)

lemma net_after [simp]:
  "net (after_draw w) = net w" "net (after_pick w) = net w" "net (after_now w) = net w"
  by (simp_all add: after_draw_def after_pick_def after_now_def)

subsection \<open>The example worlds, step by step\<close>

lemma randbelow_world_at:
  "randbelow n (world_at dt (d # ds)) = (d mod n, world_at dt ds)"
  "randbelow n (world_at dt []) = (0, world_at dt [])"
  by (simp_all add: randbelow_def world_at_def)

lemma random_world_at:
  "random (world_at dt (d # ds)) = (real (d mod 2 ^ 53) / 2 ^ 53, world_at dt ds)"
  "random (world_at dt []) = (0, world_at dt [])"
  by (simp_all add: random_def world_at_def)

lemma datetime_now_world_at: "datetime_now (world_at dt ds) = (dt, world_at dt ds)"
  by (simp add: datetime_now_def world_at_def)

lemmas world_at_steps = randbelow_world_at random_world_at datetime_now_world_at
  choice_def randint_def uniform_def bnd_def

lemma pick_zeros:
  "pick ''The {adj} {noun} {verb} {detail}.'' (world_at dt (0 # 0 # 0 # 0 # 0 # 0 # 0 # 0 # 0 # 0 # ds))
     = Inr (''The optimized cluster initializing waiting for quorum.'', world_at dt ds)"
  by (simp add: pick_def world_at_steps bank_defs emit_def)

lemma stamp_example: "strftime_YmdHMS example_datetime = ''2024-01-02 03:04:05''"
  by (simp add: strftime_YmdHMS_def strftime_HMS_def pad2_def rjust_def str_nat.simps
      digit_char_def example_datetime_def)

lemma stamp_later: "strftime_YmdHMS later_datetime = ''2025-06-07 08:09:10''"
  by (simp add: strftime_YmdHMS_def strftime_HMS_def pad2_def rjust_def str_nat.simps
      digit_char_def later_datetime_def)

lemmas build_line_steps = build_line_def build_sentence_def world_at_steps sentence_templates_def
  pick_zeros choices1_def error_levels_def commands_def now_ts_def stamp_example stamp_later
  str_int_def str_nat.simps digit_char_def

lemma build_line_plain:
  "map_sum id fst (build_line (world_at example_datetime draws_plain)) =
     Inr \<lparr>tmpls = [''The {adj} {noun} {verb} {detail}.''],
          sentence = ''The optimized cluster initializing waiting for quorum.'',
          lvl = ''INFO'', pid = 99999, cmd = None,
          log_line = ''2024-01-02 03:04:05 [INFO] (pid:99999) The optimized cluster initializing waiting for quorum.''\<rparr>"
  by (simp add: draws_plain_def build_line_steps)

lemma build_line_later:
  "map_sum id fst (build_line (world_at later_datetime draws_plain)) =
     Inr \<lparr>tmpls = [''The {adj} {noun} {verb} {detail}.''],
          sentence = ''The optimized cluster initializing waiting for quorum.'',
          lvl = ''INFO'', pid = 99999, cmd = None,
          log_line = ''2025-06-07 08:09:10 [INFO] (pid:99999) The optimized cluster initializing waiting for quorum.''\<rparr>"
  by (simp add: draws_plain_def build_line_steps)

lemma build_line_cmd:
  "map_sum id fst (build_line (world_at example_datetime draws_cmd)) =
     Inr \<lparr>tmpls = [''The {adj} {noun} {verb} {detail}.''],
          sentence = ''The optimized cluster initializing waiting for quorum.'',
          lvl = ''INFO'', pid = 1000, cmd = Some ''run-migration'',
          log_line = ''2024-01-02 03:04:05 [INFO] (pid:1000) The optimized cluster initializing waiting for quorum.  cmd: run-migration''\<rparr>"
  by (simp add: draws_cmd_def build_line_steps)

section \<open>Filling a template\<close>

text \<open>
  Claim C4. When the random source selects the adjective "optimized", the verb
  "evicting", the noun "cache" and the detail "rotating keys" (the first, second, fourth
  and tenth draws of \<open>pick\<close>), filling the template \<^verbatim>\<open>The {adj} {noun} {verb} {detail}.\<close>
  yields exactly \<^verbatim>\<open>The optimized cache evicting rotating keys.\<close>
\<close>

theorem pick_example:
  assumes "adjectives ! (entropy w !! 0 mod length adjectives) = ''optimized''"
    and "verbs ! (entropy w !! 1 mod length verbs) = ''evicting''"
    and "nouns ! (entropy w !! 3 mod length nouns) = ''cache''"
    and "details ! (entropy w !! 9 mod length details) = ''rotating keys''"
  shows "\<exists>w'. pick ''The {adj} {noun} {verb} {detail}.'' w
               = Inr (''The optimized cache evicting rotating keys.'', w')"
  using assms by (simp add: pick_def lib_defs bank_defs snth_numeral)

theorem pick_example_witness:
  "adjectives ! (entropy (world_of [0, 11, 7, 3, 2, 5, 1, 8, 4, 5]) !! 0 mod length adjectives)
     = ''optimized'' \<and>
   verbs ! (entropy (world_of [0, 11, 7, 3, 2, 5, 1, 8, 4, 5]) !! 1 mod length verbs)
     = ''evicting'' \<and>
   nouns ! (entropy (world_of [0, 11, 7, 3, 2, 5, 1, 8, 4, 5]) !! 3 mod length nouns)
     = ''cache'' \<and>
   details ! (entropy (world_of [0, 11, 7, 3, 2, 5, 1, 8, 4, 5]) !! 9 mod length details)
     = ''rotating keys'' \<and>
   (\<exists>w'. pick ''The {adj} {noun} {verb} {detail}.'' (world_of [0, 11, 7, 3, 2, 5, 1, 8, 4, 5])
           = Inr (''The optimized cache evicting rotating keys.'', w'))"
proof -
  have h:
    "adjectives ! (entropy (world_of [0, 11, 7, 3, 2, 5, 1, 8, 4, 5]) !! 0 mod length adjectives)
       = ''optimized''"
    "verbs ! (entropy (world_of [0, 11, 7, 3, 2, 5, 1, 8, 4, 5]) !! 1 mod length verbs)
       = ''evicting''"
    "nouns ! (entropy (world_of [0, 11, 7, 3, 2, 5, 1, 8, 4, 5]) !! 3 mod length nouns)
       = ''cache''"
    "details ! (entropy (world_of [0, 11, 7, 3, 2, 5, 1, 8, 4, 5]) !! 9 mod length details)
       = ''rotating keys''"
    by (simp_all add: world_of_def world_at_def bank_defs snth_numeral)
  from pick_example [OF h] h show ?thesis by blast
qed

subsection \<open>Every template can be filled\<close>

lemma pick_full_stop:
  assumes "t \<in> set (butlast sentence_templates)"
  shows "\<exists>x. pick t w = Inr (x, after_pick w) \<and> x \<noteq> [] \<and> last x = CHR ''.''"
  using assms
  apply (simp add: sentence_templates_def)
  apply (elim disjE)
          apply (simp_all add: pick_def lib_defs bank_defs after_pick_def sdrop_numeral)
  done

lemma pick_last_template:
  "\<exists>x. pick (last sentence_templates) w = Inr (x, after_pick w) \<and> x \<noteq> []"
  by (simp add: sentence_templates_def pick_def lib_defs bank_defs after_pick_def sdrop_numeral)

lemma last_template_no_stop: "last (last sentence_templates) \<noteq> CHR ''.''"
  by (simp add: sentence_templates_def)

lemma templates_nonempty: "sentence_templates \<noteq> []"
  by (simp add: sentence_templates_def)

lemma pick_total:
  assumes "t \<in> set sentence_templates"
  shows "\<exists>x. pick t w = Inr (x, after_pick w) \<and> x \<noteq> [] \<and>
             (last t = CHR ''.'' \<longrightarrow> last x = CHR ''.'')"
proof (cases "t = last sentence_templates")
  case True
  with pick_last_template [of w] last_template_no_stop show ?thesis by auto
next
  case False
  have "sentence_templates = butlast sentence_templates @ [last sentence_templates]"
    using templates_nonempty by simp
  then have "set sentence_templates = set (butlast sentence_templates) \<union> {last sentence_templates}"
    by (metis list.set(1) list.simps(15) set_append)
  with assms False have "t \<in> set (butlast sentence_templates)" by auto
  from pick_full_stop [OF this, of w] show ?thesis by auto
qed

lemma choice_total:
  assumes "xs \<noteq> []"
  shows "\<exists>x. choice xs w = Inr (x, after_draw w) \<and> x \<in> set xs"
  using assms by (simp add: choice_def randbelow_def after_draw_def)

lemma lower_last: "x \<noteq> [] \<Longrightarrow> last x = CHR ''.'' \<Longrightarrow> last (lower x) = CHR ''.''"
  by (simp add: lower_def last_map lower_char_def)

lemma lower_Nil: "lower x = [] \<longleftrightarrow> x = []"
  by (simp add: lower_def)

section \<open>The line generator\<close>

lemma build_sentence_total:
  "\<exists>ts x w'. build_sentence w = Inr ((ts, x), w') \<and> out w' = out w \<and> now w' = now w \<and>
      net w' = net w \<and> ts \<noteq> [] \<and> set ts \<subseteq> set sentence_templates \<and> x \<noteq> [] \<and>
      (last (last ts) = CHR ''.'' \<longrightarrow> last x = CHR ''.'')"
proof -
  let ?w1 = "after_draw w"
  obtain t1 where t1: "choice sentence_templates ?w1 = Inr (t1, after_draw ?w1)"
      "t1 \<in> set sentence_templates"
    using choice_total [OF templates_nonempty] by blast
  obtain s1 where s1: "pick t1 (after_draw ?w1) = Inr (s1, after_pick (after_draw ?w1))" "s1 \<noteq> []"
      "last t1 = CHR ''.'' \<longrightarrow> last s1 = CHR ''.''"
    using pick_total [OF t1(2)] by blast
  let ?w3 = "after_pick (after_draw ?w1)"
  obtain t2 where t2: "choice sentence_templates ?w3 = Inr (t2, after_draw ?w3)"
      "t2 \<in> set sentence_templates"
    using choice_total [OF templates_nonempty] by blast
  obtain s2 where s2: "pick t2 (after_draw ?w3) = Inr (s2, after_pick (after_draw ?w3))" "s2 \<noteq> []"
      "last t2 = CHR ''.'' \<longrightarrow> last s2 = CHR ''.''"
    using pick_total [OF t2(2)] by blast
  show ?thesis
  proof (cases "fst (random w) < 0.35")
    case True
    then have "build_sentence w = Inr (([t1, t2], s1 @ '' '' @ lower s2), after_pick (after_draw ?w3))"
      by (simp add: build_sentence_def case_random bnd_def t1 s1 t2 s2)
    with t1 t2 s1 s2 show ?thesis by (auto simp: lower_last lower_Nil)
  next
    case False
    then have "build_sentence w = Inr (([t1], s1), ?w3)"
      by (simp add: build_sentence_def case_random bnd_def t1 s1)
    with t1 s1 show ?thesis by auto
  qed
qed

lemma choices1_levels:
  "\<exists>l. choices1 error_levels [40, 25, 15, 8, 8, 4] w = Inr (l, after_draw w) \<and> l \<in> set error_levels"
  by (simp add: choices1_def error_levels_def random_def after_draw_def)

lemma randint_pid:
  "\<exists>p. randint 1000 99999 w = Inr (p, after_draw w) \<and> 1000 \<le> p \<and> p \<le> 99999"
proof -
  have "shd (entropy w) mod 99000 < 99000" by simp
  then show ?thesis
    by (simp add: randint_def randbelow_def after_draw_def)
qed

lemma commands_nonempty: "commands \<noteq> []"
  by (simp add: commands_def)

text \<open>
  The generator always returns, and the line it returns is the time stamp, the level,
  the process id, the sentence and, if one was drawn, the command fragment.
\<close>

lemma build_line_total:
  "\<exists>v w' stamp. build_line w = Inr (v, w') \<and> out w' = out w \<and> now w' = now w \<and> net w' = net w \<and>
      tmpls v \<noteq> [] \<and> set (tmpls v) \<subseteq> set sentence_templates \<and>
      sentence v \<noteq> [] \<and> (last (last (tmpls v)) = CHR ''.'' \<longrightarrow> last (sentence v) = CHR ''.'') \<and>
      lvl v \<in> set error_levels \<and> 1000 \<le> pid v \<and> pid v \<le> 99999 \<and>
      (case cmd v of None \<Rightarrow> True | Some c \<Rightarrow> c \<in> set commands) \<and>
      log_line v = stamp @ '' ['' @ lvl v @ ''] (pid:'' @ str_int (pid v) @ '') '' @ sentence v @
                   (case cmd v of None \<Rightarrow> [] | Some c \<Rightarrow> ''  cmd: '' @ c)"
proof -
  obtain ts x w1 where bs: "build_sentence w = Inr ((ts, x), w1)" "out w1 = out w"
      "now w1 = now w" "net w1 = net w" "ts \<noteq> []"
      "set ts \<subseteq> set sentence_templates" "x \<noteq> []"
      "last (last ts) = CHR ''.'' \<longrightarrow> last x = CHR ''.''"
    using build_sentence_total [of w] by blast
  obtain l where l: "choices1 error_levels [40, 25, 15, 8, 8, 4] w1 = Inr (l, after_draw w1)"
      "l \<in> set error_levels"
    using choices1_levels by blast
  obtain p where p: "randint 1000 99999 (after_draw w1) = Inr (p, after_draw (after_draw w1))"
      "1000 \<le> p" "p \<le> 99999"
    using randint_pid by blast
  let ?w4 = "after_now (after_draw (after_draw w1))"
  obtain c where c: "choice commands (after_draw ?w4) = Inr (c, after_draw (after_draw ?w4))"
      "c \<in> set commands"
    using choice_total [OF commands_nonempty] by blast
  let ?stamp = "stamp_of (after_draw (after_draw w1))"
  let ?base = "?stamp @ '' ['' @ l @ ''] (pid:'' @ str_int p @ '') '' @ x"
  show ?thesis
  proof (cases "fst (random ?w4) < 0.22")
    case True
    let ?v = "\<lparr>tmpls = ts, sentence = x, lvl = l, pid = p, cmd = Some c,
                log_line = ?base @ ''  cmd: '' @ c\<rparr>"
    from True have "build_line w = Inr (?v, after_draw (after_draw ?w4))"
      by (simp add: build_line_def bnd_def bs l p now_ts_eq case_random c)
    with bs l p c show ?thesis
      by (intro exI [of _ ?v] exI [of _ "after_draw (after_draw ?w4)"] exI [of _ ?stamp]) simp
  next
    case False
    let ?v = "\<lparr>tmpls = ts, sentence = x, lvl = l, pid = p, cmd = None, log_line = ?base\<rparr>"
    from False have "build_line w = Inr (?v, after_draw ?w4)"
      by (simp add: build_line_def bnd_def bs l p now_ts_eq case_random)
    with bs l p show ?thesis
      by (intro exI [of _ ?v] exI [of _ "after_draw ?w4"] exI [of _ ?stamp]) simp
  qed
qed

text \<open>
  Claim C1, as amended. Every line the generator builds is a base line followed, when a
  command fragment was drawn, by \<^verbatim>\<open>  cmd: \<close> and one of the seven commands. When the last
  template chosen (the second one of two) ends with a full stop, the base line ends with
  that full stop: a line without a command fragment then ends with the punctuation of its
  template, and a line with one ends with the command.
\<close>

theorem line_layout:
  "\<exists>v w'. build_line w = Inr (v, w') \<and>
      tmpls v \<noteq> [] \<and> set (tmpls v) \<subseteq> set sentence_templates \<and>
      (case cmd v of None \<Rightarrow> True | Some c \<Rightarrow> c \<in> set commands) \<and>
      (\<exists>base. log_line v = base @ (case cmd v of None \<Rightarrow> [] | Some c \<Rightarrow> ''  cmd: '' @ c) \<and>
         (last (last (tmpls v)) = CHR ''.'' \<longrightarrow> last base = CHR ''.''))"
proof -
  obtain v w' stamp where v: "build_line w = Inr (v, w')"
      "tmpls v \<noteq> []" "set (tmpls v) \<subseteq> set sentence_templates"
      "sentence v \<noteq> []" "last (last (tmpls v)) = CHR ''.'' \<longrightarrow> last (sentence v) = CHR ''.''"
      "case cmd v of None \<Rightarrow> True | Some c \<Rightarrow> c \<in> set commands"
      "log_line v = stamp @ '' ['' @ lvl v @ ''] (pid:'' @ str_int (pid v) @ '') '' @ sentence v @
                   (case cmd v of None \<Rightarrow> [] | Some c \<Rightarrow> ''  cmd: '' @ c)"
    using build_line_total [of w] by (elim exE conjE) blast
  let ?base = "stamp @ '' ['' @ lvl v @ ''] (pid:'' @ str_int (pid v) @ '') '' @ sentence v"
  have "log_line v = ?base @ (case cmd v of None \<Rightarrow> [] | Some c \<Rightarrow> ''  cmd: '' @ c)"
    using v(7) by simp
  moreover have "last (last (tmpls v)) = CHR ''.'' \<longrightarrow> last ?base = CHR ''.''"
    using v(4,5) by simp
  ultimately have "\<exists>base. log_line v = base @ (case cmd v of None \<Rightarrow> [] | Some c \<Rightarrow> ''  cmd: '' @ c) \<and>
         (last (last (tmpls v)) = CHR ''.'' \<longrightarrow> last base = CHR ''.'')"
    by (intro exI [of _ ?base] conjI)
  with v(1,2,3,6) show ?thesis
    by (intro exI [of _ v] exI [of _ w'] conjI)
qed

theorem line_layout_witness:
  "\<exists>v w'. build_line (world_at example_datetime draws_plain) = Inr (v, w') \<and> cmd v = None \<and>
      last (last (tmpls v)) = CHR ''.'' \<and> last (log_line v) = CHR ''.''"
proof -
  obtain v w' where v: "build_line (world_at example_datetime draws_plain) = Inr (v, w')"
      "\<exists>base. log_line v = base @ (case cmd v of None \<Rightarrow> [] | Some c \<Rightarrow> ''  cmd: '' @ c) \<and>
         (last (last (tmpls v)) = CHR ''.'' \<longrightarrow> last base = CHR ''.'')"
    using line_layout [of "world_at example_datetime draws_plain"] by (elim exE conjE) blast
  from v(1) build_line_plain have "cmd v = None" "last (last (tmpls v)) = CHR ''.''"
    by auto
  with v show ?thesis by auto
qed

text \<open>
  The claim as stated fails on a line with a command fragment: the template ends with a
  full stop, the line with the last letter of \<^verbatim>\<open>run-migration\<close>.
\<close>

theorem line_ending_counterexample:
  "map_sum id fst (build_line (world_at example_datetime draws_cmd)) =
     Inr \<lparr>tmpls = [''The {adj} {noun} {verb} {detail}.''],
          sentence = ''The optimized cluster initializing waiting for quorum.'',
          lvl = ''INFO'', pid = 1000, cmd = Some ''run-migration'',
          log_line = ''2024-01-02 03:04:05 [INFO] (pid:1000) The optimized cluster initializing waiting for quorum.  cmd: run-migration''\<rparr> \<and>
   last ''2024-01-02 03:04:05 [INFO] (pid:1000) The optimized cluster initializing waiting for quorum.  cmd: run-migration''
     \<noteq> last ''The {adj} {noun} {verb} {detail}.''"
  using build_line_cmd by simp

text \<open>
  Claim C2, as amended. The process id of every generated line is an integer from 1000
  to 99999, both ends included, and the line shows it as \<^verbatim>\<open>(pid:N)\<close>.
\<close>

theorem pid_range:
  "\<exists>v w'. build_line w = Inr (v, w') \<and> 1000 \<le> pid v \<and> pid v \<le> 99999 \<and>
      (\<exists>pre post. log_line v = pre @ ''(pid:'' @ str_int (pid v) @ '')'' @ post)"
proof -
  obtain v w' stamp where v: "build_line w = Inr (v, w')" "1000 \<le> pid v" "pid v \<le> 99999"
      "log_line v = stamp @ '' ['' @ lvl v @ ''] (pid:'' @ str_int (pid v) @ '') '' @ sentence v @
                   (case cmd v of None \<Rightarrow> [] | Some c \<Rightarrow> ''  cmd: '' @ c)"
    using build_line_total [of w] by (elim exE conjE) blast
  have "log_line v = (stamp @ '' ['' @ lvl v @ ''] '') @ ''(pid:'' @ str_int (pid v) @ '')'' @
      ('' '' @ sentence v @ (case cmd v of None \<Rightarrow> [] | Some c \<Rightarrow> ''  cmd: '' @ c))"
    using v(4) by simp
  then have "\<exists>pre post. log_line v = pre @ ''(pid:'' @ str_int (pid v) @ '')'' @ post"
    by blast
  with v(1,2,3) show ?thesis
    by (intro exI [of _ v] exI [of _ w'] conjI)
qed

text \<open>The upper end is reached: \<^verbatim>\<open>random.randint\<close> includes it.\<close>

theorem pid_range_counterexample:
  "map_sum id (\<lambda>r. pid (fst r)) (build_line (world_at example_datetime draws_plain)) = Inr 99999 \<and>
   map_sum id (\<lambda>r. pid (fst r) < 99999) (build_line (world_at example_datetime draws_plain)) = Inr False"
proof -
  obtain v w' where v: "build_line (world_at example_datetime draws_plain) = Inr (v, w')"
    using build_line_total by blast
  with build_line_plain have "pid v = 99999" by auto
  with v show ?thesis by simp
qed

section \<open>Determinism of the generator\<close>

text \<open>
  The generator reads the random source and the wall clock and nothing else: run in two
  worlds with the same sources, every step gives the same value and leaves worlds with
  the same sources.
\<close>

lemma agree_bnd:
  assumes "agree m1 m2"
    and "\<And>x w1 w2. same_sources w1 w2 \<Longrightarrow> agree (f1 x w1) (f2 x w2)"
  shows "agree (bnd m1 f1) (bnd m2 f2)"
proof (cases m1)
  case (Inl e1)
  with assms(1) show ?thesis by (cases m2) (simp_all add: agree_def bnd_def)
next
  case (Inr p1)
  with assms(1) obtain p2 where p2: "m2 = Inr p2" "fst p1 = fst p2" "same_sources (snd p1) (snd p2)"
    by (cases m2) (simp_all add: agree_def)
  from assms(2) [OF p2(3), of "fst p1"] Inr p2 show ?thesis
    by (simp add: bnd_def split_beta)
qed

lemma agree_choice:
  "same_sources w1 w2 \<Longrightarrow> agree (choice xs w1) (choice xs w2)"
  by (simp add: choice_def randbelow_def agree_def same_sources_def)

lemma agree_randint:
  "same_sources w1 w2 \<Longrightarrow> agree (randint a b w1) (randint a b w2)"
  by (simp add: randint_def randbelow_def agree_def same_sources_def)

lemma agree_choices1:
  "same_sources w1 w2 \<Longrightarrow> agree (choices1 xs ws w1) (choices1 xs ws w2)"
  by (simp add: choices1_def random_def agree_def same_sources_def Let_def)

lemma agree_if:
  "c1 = c2 \<Longrightarrow> (c1 \<Longrightarrow> agree a1 a2) \<Longrightarrow> (\<not> c1 \<Longrightarrow> agree b1 b2)
     \<Longrightarrow> agree (if c1 then a1 else b1) (if c2 then a2 else b2)"
  by simp

lemma agree_leaf:
  "r1 = r2 \<Longrightarrow> same_sources w1 w2
     \<Longrightarrow> agree (case r1 of Inl e \<Rightarrow> Inl e | Inr x \<Rightarrow> Inr (x, w1))
               (case r2 of Inl e \<Rightarrow> Inl e | Inr x \<Rightarrow> Inr (x, w2))"
  by (cases r2) (simp_all add: agree_def)

lemma agree_InrI: "x = y \<Longrightarrow> same_sources w1 w2 \<Longrightarrow> agree (Inr (x, w1)) (Inr (y, w2))"
  by (simp add: agree_def)

lemmas sources_defs = same_sources_def after_draw_def after_now_def random_def stamp_of_def

lemma agree_pick:
  assumes "same_sources w1 w2"
  shows "agree (pick t w1) (pick t w2)"
  unfolding pick_def case_uniform case_datetime_now
  using assms
  by (intro agree_bnd agree_choice agree_randint agree_leaf) (simp_all add: sources_defs)

lemma agree_build_sentence:
  assumes "same_sources w1 w2"
  shows "agree (build_sentence w1) (build_sentence w2)"
  unfolding build_sentence_def case_random
  using assms
  by (intro agree_if agree_bnd agree_choice agree_pick agree_InrI) (simp_all add: sources_defs)

lemma agree_build_line:
  assumes "same_sources w1 w2"
  shows "agree (build_line w1) (build_line w2)"
  unfolding build_line_def now_ts_eq case_random case_prod_beta Let_def prod.case
  using assms
  by (intro agree_if agree_bnd agree_build_sentence agree_choices1 agree_randint agree_choice agree_InrI)
     (simp_all add: sources_defs)

text \<open>
  Claim C5, as amended. Line generation is deterministic given the random source and
  the wall clock: in two worlds with the same random-source state and the same clock
  readings the generator produces the same log line (or raises the same exception),
  whatever else differs between the worlds.
\<close>

theorem line_determined:
  assumes "entropy w1 = entropy w2" and "wall w1 = wall w2"
  shows "map_sum id (\<lambda>r. log_line (fst r)) (build_line w1)
       = map_sum id (\<lambda>r. log_line (fst r)) (build_line w2)"
proof -
  from assms have "same_sources w1 w2" by (simp add: same_sources_def)
  from agree_build_line [OF this] show ?thesis
    by (auto simp: agree_def split: sum.splits)
qed

theorem line_determined_witness:
  "entropy (world_of draws_plain) = entropy ((world_of draws_plain)\<lparr>now := 5, out := [OsSystem ''clear'']\<rparr>) \<and>
   wall (world_of draws_plain) = wall ((world_of draws_plain)\<lparr>now := 5, out := [OsSystem ''clear'']\<rparr>) \<and>
   map_sum id (\<lambda>r. log_line (fst r)) (build_line (world_of draws_plain))
     = map_sum id (\<lambda>r. log_line (fst r))
         (build_line ((world_of draws_plain)\<lparr>now := 5, out := [OsSystem ''clear'']\<rparr>))"
  using line_determined [of "world_of draws_plain"
      "(world_of draws_plain)\<lparr>now := 5, out := [OsSystem ''clear'']\<rparr>"]
  by simp

text \<open>
  With the same random source alone the lines differ: the time stamp comes from the
  clock.
\<close>

theorem line_determined_counterexample:
  "entropy (world_at example_datetime draws_plain) = entropy (world_at later_datetime draws_plain) \<and>
   map_sum id (\<lambda>r. log_line (fst r)) (build_line (world_at example_datetime draws_plain))
     \<noteq> map_sum id (\<lambda>r. log_line (fst r)) (build_line (world_at later_datetime draws_plain))"
proof -
  obtain v1 w1 where v1: "build_line (world_at example_datetime draws_plain) = Inr (v1, w1)"
    using build_line_total by blast
  obtain v2 w2 where v2: "build_line (world_at later_datetime draws_plain) = Inr (v2, w2)"
    using build_line_total by blast
  from v1 build_line_plain have
    "log_line v1 = ''2024-01-02 03:04:05 [INFO] (pid:99999) The optimized cluster initializing waiting for quorum.''"
    by auto
  moreover from v2 build_line_later have
    "log_line v2 = ''2025-06-07 08:09:10 [INFO] (pid:99999) The optimized cluster initializing waiting for quorum.''"
    by auto
  ultimately have "log_line v1 \<noteq> log_line v2" by simp
  with v1 v2 show ?thesis by (simp add: world_at_def)
qed

section \<open>The quote and the fall-back\<close>

lemma clears_print [simp]: "clears (print text e w) = clears w"
  by (simp add: clears_def print_def is_clear_def)

lemma clears_after [simp]:
  "clears (after_draw w) = clears w" "clears (after_now w) = clears w"
  by (simp_all add: clears_def)

lemma print_line_eq:
  "\<exists>colour. print_line env v w = print (colored env (log_line v) colour) [CHR 0x0A] w"
  by (auto simp: print_line_def colored_def)

lemma time_sleep_ok: "0 \<le> d \<Longrightarrow> time_sleep d w = Inr (w\<lparr>now := now w + d\<rparr>)"
  by (simp add: time_sleep_def)

lemma emit_line_total:
  "\<exists>v w1 w2. build_line w = Inr (v, w1) \<and> emit_line env (lc, w) = Inr (lc + 1, w2) \<and>
      out w2 = out (print_line env v w1) \<and> out w1 = out w \<and> clears w2 = clears w"
proof -
  obtain v w1 where v: "build_line w = Inr (v, w1)" "out w1 = out w"
    using build_line_total [of w] by blast
  let ?w2 = "print_line env v w1"
  let ?u = "TICK_MIN + (TICK_MAX - TICK_MIN) * fst (random ?w2)"
  let ?r = "fst (random (after_draw ?w2))"
  have "0 \<le> ?u" "0 \<le> 0.6 + ?r"
    using random_range [of ?w2] random_range [of "after_draw ?w2"]
    by (simp_all add: TICK_MIN_def TICK_MAX_def)
  then have "0 \<le> ?u * (0.6 + ?r)"
    by (rule mult_nonneg_nonneg)
  then have "emit_line env (lc, w) =
      Inr (lc + 1, (after_draw (after_draw ?w2))\<lparr>now := now (after_draw (after_draw ?w2)) + ?u * (0.6 + ?r)\<rparr>)"
    by (simp add: emit_line_def bnd_def v case_uniform case_random time_sleep_ok Let_def)
  moreover have "clears ?w2 = clears w"
    using print_line_eq [of env v w1] v(2) by (auto simp: clears_def print_def is_clear_def)
  ultimately show ?thesis using v
    by (auto simp: clears_def)
qed

lemma fetch_quote_fails:
  assumes "fetch_fails env w"
  shows "fst (fetch_quote env w) = None"
  using assms
  by (auto simp: fetch_fails_def is_failure_def fetch_quote_def Let_def
      split: http_outcome.splits json_body.splits)

lemma fetch_quote_world:
  "snd (fetch_quote env w) = w \<or> snd (fetch_quote env w) = w\<lparr>net := stl (net w)\<rparr>"
  by (auto simp: fetch_quote_def Let_def split: http_outcome.splits json_body.splits)

text \<open>
  Claim C7. When the fetch fails (\<^verbatim>\<open>requests\<close> missing, the request raising on a network
  error or a timeout, a status other than 200, a body that is not JSON or not a JSON
  object), \<^verbatim>\<open>fetch_quote\<close> returns \<^verbatim>\<open>None\<close> and raises nothing, and the rest of the
  iteration, whether or not it tried the fetch, prints a line built by the generator
  and counts it.
\<close>

theorem quote_failure_falls_back:
  assumes "fetch_fails env w"
  shows "fst (fetch_quote env w) = None \<and>
    (\<exists>wq v w1 w2 colour.
        (wq = w \<or> wq = after_draw w \<or> wq = (after_draw w)\<lparr>net := stl (net w)\<rparr>) \<and>
        build_line wq = Inr (v, w1) \<and>
        quote_or_line env use_api (line_counter, w) = Some (Inr (line_counter + 1, w2)) \<and>
        out w2 = out w @ [Print (colored env (log_line v) colour) [CHR 0x0A]])"
proof -
  have none: "fst (fetch_quote env w') = None" if "net w' = net w" for w'
    using assms that fetch_quote_fails [of env w'] by (simp add: fetch_fails_def)
  have fall: "\<exists>v w1 w2 colour. build_line wq = Inr (v, w1) \<and>
        emit_line env (line_counter, wq) = Inr (line_counter + 1, w2) \<and>
        out w2 = out w @ [Print (colored env (log_line v) colour) [CHR 0x0A]]"
    if "out wq = out w" for wq
  proof -
    obtain v w1 w2 where e: "build_line wq = Inr (v, w1)"
        "emit_line env (line_counter, wq) = Inr (line_counter + 1, w2)"
        "out w2 = out (print_line env v w1)" "out w1 = out wq"
      using emit_line_total [of wq env line_counter] by blast
    obtain colour where "print_line env v w1 = print (colored env (log_line v) colour) [CHR 0x0A] w1"
      using print_line_eq by blast
    with e that show ?thesis by (auto simp: print_def)
  qed
  let ?w1 = "after_draw w"
  have q: "\<exists>wq. (wq = w \<or> wq = ?w1 \<or> wq = ?w1\<lparr>net := stl (net w)\<rparr>) \<and> out wq = out w \<and>
      quote_or_line env use_api (line_counter, w) = Some (emit_line env (line_counter, wq))"
  proof (cases "use_api \<and> have_requests env")
    case False
    then show ?thesis by (auto simp: quote_or_line_def)
  next
    case True
    show ?thesis
    proof (cases "fst (random w) < API_QUOTE_FREQ")
      case False
      with True show ?thesis by (auto simp: quote_or_line_def case_random)
    next
      case draw: True
      obtain q w2 where f: "fetch_quote env ?w1 = (q, w2)"
        by (cases "fetch_quote env ?w1")
      have "fst (fetch_quote env ?w1) = None" by (rule none) simp
      with f have q: "q = None" by simp
      have "w2 = ?w1 \<or> w2 = ?w1\<lparr>net := stl (net w)\<rparr>"
        using fetch_quote_world [of env ?w1] f by simp
      moreover have "quote_or_line env use_api (line_counter, w) = Some (emit_line env (line_counter, w2))"
        using True draw by (simp add: quote_or_line_def case_random f q)
      ultimately show ?thesis by auto
    qed
  qed
  then obtain wq where wq: "wq = w \<or> wq = ?w1 \<or> wq = ?w1\<lparr>net := stl (net w)\<rparr>" "out wq = out w"
      "quote_or_line env use_api (line_counter, w) = Some (emit_line env (line_counter, wq))"
    by blast
  from fall [OF wq(2)] wq(1,3) none [of w] show ?thesis
    by (metis (no_types, lifting))
qed


theorem quote_failure_falls_back_witness:
  "fetch_fails plain_env (world_of []) \<and>
   fst (fetch_quote plain_env (world_of [])) = None \<and>
   (\<exists>wq v w1 w2 colour.
      (wq = world_of [] \<or> wq = after_draw (world_of []) \<or>
       wq = (after_draw (world_of []))\<lparr>net := stl (net (world_of []))\<rparr>) \<and>
      build_line wq = Inr (v, w1) \<and>
      quote_or_line plain_env True (0, world_of []) = Some (Inr (0 + 1, w2)) \<and>
      out w2 = out (world_of []) @ [Print (colored plain_env (log_line v) colour) [CHR 0x0A]])"
proof -
  have h: "fetch_fails plain_env (world_of [])"
    by (simp add: fetch_fails_def is_failure_def world_of_def world_at_def)
  from quote_failure_falls_back [OF h, of True 0] h show ?thesis
    by simp
qed

section \<open>The spinner and the progress bar\<close>

text \<open>
  Both loops run until the clock has advanced by the duration. Every pass sleeps for a
  fixed minimum, so the number of passes left, the remaining time divided by that
  minimum and rounded up, goes down.
\<close>

lemma ceil_step:
  fixes x c s :: real
  assumes "0 < c" "0 < x" "c \<le> s"
  shows "nat \<lceil>(x - s) / c\<rceil> < nat \<lceil>x / c\<rceil>"
proof -
  have "(x - s) / c \<le> x / c - 1"
    using assms by (simp add: field_simps)
  then have "\<lceil>(x - s) / c\<rceil> \<le> \<lceil>x / c - 1\<rceil>"
    by (rule ceiling_mono)
  also have "\<dots> = \<lceil>x / c\<rceil> - 1" by simp
  finally have "\<lceil>(x - s) / c\<rceil> \<le> \<lceil>x / c\<rceil> - 1" .
  moreover have "0 < \<lceil>x / c\<rceil>"
    using assms by simp
  ultimately show ?thesis by linarith
qed

lemma clears_now [simp]: "clears (w\<lparr>now := t\<rparr>) = clears w"
  by (simp add: clears_def)

lemma out_print: "out (print frame e w) = out w @ [Print frame e]"
  by (simp add: print_def)

lemma now_print [simp]: "now (print frame e w) = now w"
  by (simp add: print_def)

lemma spinner_loop_total:
  "\<exists>w'. spinner_loop t0 d i w = Some (Inr w') \<and> clears w' = clears w"
proof (induction "nat \<lceil>(t0 + d - now w) / 0.08\<rceil>" arbitrary: w i rule: less_induct)
  case less
  show ?case
  proof (cases "time_time w - t0 < d")
    case False
    then show ?thesis
      by (subst spinner_loop.simps) simp
  next
    case True
    let ?w2 = "print (stamp_of w @ '' '' @ (spinner_seq ! (i mod length spinner_seq) # '' working...''))
                 [CHR 0x0D] (after_now w)"
    let ?w3 = "?w2\<lparr>now := now ?w2 + 0.08\<rparr>"
    have "nat \<lceil>(t0 + d - now w - 0.08) / 0.08\<rceil> < nat \<lceil>(t0 + d - now w) / 0.08\<rceil>"
      using True by (intro ceil_step) (simp_all add: time_time_def)
    then have "nat \<lceil>(t0 + d - now ?w3) / 0.08\<rceil> < nat \<lceil>(t0 + d - now w) / 0.08\<rceil>"
      by (simp add: algebra_simps)
    from less [OF this, of "i + 1"] obtain w' where
      w': "spinner_loop t0 d (i + 1) ?w3 = Some (Inr w')" "clears w' = clears ?w3"
      by blast
    have "spinner_loop t0 d i w = spinner_loop t0 d (i + 1) ?w3"
      using True by (subst spinner_loop.simps) (simp add: now_ts_eq time_sleep_def Let_def)
    with w' show ?thesis by simp
  qed
qed

lemma spinner_total: "\<exists>w'. spinner d w = Some (Inr w') \<and> clears w' = clears w"
proof -
  obtain w' where "spinner_loop (time_time w) d 0 w = Some (Inr w')" "clears w' = clears w"
    using spinner_loop_total by blast
  then show ?thesis by (simp add: spinner_def)
qed

subsection \<open>Reading a frame back\<close>

lemma below_ten:
  "(d::nat) < 10 \<Longrightarrow> d = 0 \<or> d = 1 \<or> d = 2 \<or> d = 3 \<or> d = 4 \<or> d = 5 \<or> d = 6 \<or> d = 7 \<or> d = 8 \<or> d = 9"
  by arith

lemma digit_val_char: "d < 10 \<Longrightarrow> digit_val (digit_char d) = d"
  using below_ten [of d] by (auto simp: digit_val_def digit_char_def)

lemma digit_char_is_digit: "d < 10 \<Longrightarrow> is_digit (digit_char d)"
  using below_ten [of d] by (auto simp: digit_char_def is_digit_def)

lemma read_nat_snoc: "read_nat (xs @ [c]) = 10 * read_nat xs + digit_val c"
  by (simp add: read_nat_def)

lemma read_nat_str_nat: "read_nat (str_nat n) = n"
proof (induction n rule: str_nat.induct)
  case (1 n)
  show ?case
  proof (cases "n < 10")
    case True
    then show ?thesis
      by (subst str_nat.simps) (simp add: read_nat_def digit_val_char)
  next
    case False
    with 1 have "read_nat (str_nat (n div 10)) = n div 10" by simp
    with False show ?thesis
      by (subst str_nat.simps) (simp add: read_nat_snoc digit_val_char)
  qed
qed

lemma str_nat_digits: "list_all is_digit (str_nat n)"
proof (induction n rule: str_nat.induct)
  case (1 n)
  show ?case
  proof (cases "n < 10")
    case True
    then show ?thesis
      by (subst str_nat.simps) (simp add: digit_char_is_digit)
  next
    case False
    with 1 have "list_all is_digit (str_nat (n div 10))" by simp
    with False show ?thesis
      by (subst str_nat.simps) (simp add: digit_char_is_digit)
  qed
qed

lemma str_nat_nonempty: "str_nat n \<noteq> []"
  by (subst str_nat.simps) simp

lemma str_nat_without:
  assumes "c = CHR '' '' \<or> c = CHR ''-'' \<or> c = CHR ''%'' \<or> c = CHR '']''"
  shows "c \<notin> set (str_nat n)"
proof
  assume "c \<in> set (str_nat n)"
  then have "is_digit c"
    using str_nat_digits [of n] by (simp add: list_all_iff)
  with assms show False
    by (auto simp: is_digit_def)
qed

lemma read_int_str_int: "read_int (replicate k CHR '' '' @ str_int p) = p"
proof -
  have drop: "dropWhile (\<lambda>c. c = CHR '' '') (replicate k CHR '' '' @ xs) = dropWhile (\<lambda>c. c = CHR '' '') xs" for xs
    by (rule dropWhile_append2) simp
  show ?thesis
  proof (cases "p < 0")
    case True
    then show ?thesis
      by (simp add: read_int_def drop str_int_def read_nat_str_nat)
  next
    case False
    obtain c ds where c: "str_nat (nat p) = c # ds"
      using str_nat_nonempty [of "nat p"] by (cases "str_nat (nat p)") auto
    have "c \<in> set (str_nat (nat p))" using c by simp
    with str_nat_without [of c "nat p"] have "c \<noteq> CHR '' ''" "c \<noteq> CHR ''-''" by auto
    moreover have "read_nat (c # ds) = nat p" using read_nat_str_nat [of "nat p"] c by simp
    ultimately show ?thesis using False c
      by (simp add: read_int_def drop str_int_def)
  qed
qed

lemma str_int_no_percent: "CHR ''%'' \<notin> set (str_int p)"
  by (simp add: str_int_def str_nat_without)

lemma rjust_without: "c \<noteq> x \<Longrightarrow> x \<notin> set xs \<Longrightarrow> x \<notin> set (rjust n c xs)"
  by (auto simp: rjust_def)

lemma stamp_no_bracket: "CHR '']'' \<notin> set (strftime_YmdHMS d)"
  by (simp add: strftime_YmdHMS_def strftime_HMS_def pad2_def rjust_without str_nat_without)

lemma frame_percent:
  "shown_percent (colored env (strftime_YmdHMS d @ '' '' @ bar_text f width @ ''  (updating...)'')
                    (if COLOR env then Fore_GREEN else [])) = py_int (f * 100)"
proof -
  let ?p = "py_int (f * 100)"
  let ?num = "rjust 3 CHR '' '' (str_int ?p)"
  let ?dn = "py_int (f * real_of_int width)"
  let ?pre = "(if COLOR env then Fore_GREEN else []) @ strftime_YmdHMS d @ '' ['' @
      replicate (nat ?dn) CHR ''#'' @ replicate (nat (width - ?dn)) CHR ''.''"
  let ?post = "''  (updating...)'' @ (if COLOR env then Style_RESET_ALL else [])"
  have shape: "colored env (strftime_YmdHMS d @ '' '' @ bar_text f width @ ''  (updating...)'')
                    (if COLOR env then Fore_GREEN else [])
      = ?pre @ CHR '']'' # (CHR '' '' # ?num) @ CHR ''%'' # ?post"
    by (simp add: colored_def bar_text_def Let_def)
  have pre: "CHR '']'' \<notin> set ?pre"
    using stamp_no_bracket [of d] by (simp add: Fore_GREEN_def ESC_def)
  have num: "CHR ''%'' \<notin> set (CHR '' '' # ?num)"
    by (simp add: rjust_without str_int_no_percent)
  have "dropWhile (\<lambda>c. c \<noteq> CHR '']'') (?pre @ CHR '']'' # (CHR '' '' # ?num) @ CHR ''%'' # ?post)
      = CHR '']'' # (CHR '' '' # ?num) @ CHR ''%'' # ?post"
    using pre by (subst dropWhile_append2) auto
  moreover have "takeWhile (\<lambda>c. c \<noteq> CHR ''%'') ((CHR '' '' # ?num) @ CHR ''%'' # ?post) = CHR '' '' # ?num"
    using num by (subst takeWhile_append2) auto
  moreover have "read_int (CHR '' '' # ?num) = ?p"
    using read_int_str_int [of "Suc (3 - length (str_int ?p))" ?p] by (simp add: rjust_def)
  ultimately show ?thesis
    unfolding shown_percent_def shape by simp
qed


subsection \<open>The frames of one progress bar\<close>

lemma scale_below: "(x::real) < 1 \<Longrightarrow> x * 100 < 100"
  by simp

lemma py_int_below: "x < 100 \<Longrightarrow> py_int x < 100"
  by (simp add: py_int_def floor_less_iff ceiling_less_iff)

lemma shown_percents_append:
  "shown_percents (es @ fs) = shown_percents es @ shown_percents fs"
proof -
  have "frame_texts (es @ fs) = frame_texts es @ frame_texts fs"
    by (induction es rule: frame_texts.induct) simp_all
  then show ?thesis by (simp add: shown_percents_def)
qed

lemma shown_percents_frame:
  "shown_percents [Print frame [CHR 0x0D]] = [shown_percent frame]"
  by (simp add: shown_percents_def)

text \<open>
  The loop of the progress bar returns when the duration is positive; its frames show
  percentages below 100 and then, once, 100.
\<close>

lemma progress_loop_total:
  assumes "0 < duration"
  shows "\<exists>w' es ps. progress_loop env start duration width w = Some (Inr w') \<and>
      out w' = out w @ es \<and> shown_percents es = ps @ [100] \<and> (\<forall>p\<in>set ps. p < 100) \<and>
      (\<forall>e\<in>set es. \<not> is_clear e)"
proof (induction "nat \<lceil>(start + duration - now w) / 0.06\<rceil>" arbitrary: w rule: less_induct)
  case less
  define fraction where "fraction = min 1 ((time_time w - start) / duration)"
  define frame where "frame = colored env (stamp_of w @ '' '' @ bar_text fraction width @ ''  (updating...)'')
                  (if COLOR env then Fore_GREEN else [])"
  define w2 where "w2 = print frame [CHR 0x0D] (after_now w)"
  have shown: "shown_percent frame = py_int (fraction * 100)"
    unfolding frame_def stamp_of_def by (rule frame_percent)
  have out2: "out w2 = out w @ [Print frame [CHR 0x0D]]"
    by (simp add: w2_def out_print)
  have now2: "now w2 = now w"
    by (simp add: w2_def)
  have frames: "shown_percents [Print frame [CHR 0x0D]] = [shown_percent frame]"
    by (rule shown_percents_frame)
  show ?case
  proof (cases "1 \<le> fraction")
    case True
    then have "fraction = 1" by (simp add: fraction_def)
    with shown have "shown_percent frame = 100" by (simp add: py_int_def)
    with frames have "shown_percents [Print frame [CHR 0x0D]] = [] @ [100]"
      by simp
    moreover have "progress_loop env start duration width w = Some (Inr w2)"
      using True assms unfolding w2_def frame_def fraction_def
      by (subst progress_loop.simps) (simp add: now_ts_eq Let_def)
    ultimately show ?thesis using out2
      by (intro exI [of _ w2] exI [of _ "[Print frame [CHR 0x0D]]"] exI [of _ "[]"])
         (simp add: is_clear_def)
  next
    case False
    then have below: "(time_time w - start) / duration < 1" by (simp add: fraction_def)
    then have pos: "0 < start + duration - now w"
      using assms by (simp add: time_time_def field_simps)
    define r where "r = fst (random w2)"
    define w4 where "w4 = (after_draw w2)\<lparr>now := now w + (0.06 + r * 0.08)\<rparr>"
    have r: "0 \<le> r" unfolding r_def by (rule random_range)
    have "nat \<lceil>(start + duration - now w - (0.06 + r * 0.08)) / 0.06\<rceil>
        < nat \<lceil>(start + duration - now w) / 0.06\<rceil>"
      using pos r by (intro ceil_step) simp_all
    then have "nat \<lceil>(start + duration - now w4) / 0.06\<rceil> < nat \<lceil>(start + duration - now w) / 0.06\<rceil>"
      by (simp add: w4_def algebra_simps)
    from less [OF this] obtain w' es ps where
      rec: "progress_loop env start duration width w4 = Some (Inr w')"
        "out w' = out w4 @ es" "shown_percents es = ps @ [100]" "\<forall>p\<in>set ps. p < 100"
        "\<forall>e\<in>set es. \<not> is_clear e"
      by blast
    have step: "progress_loop env start duration width w = progress_loop env start duration width w4"
      using False assms r unfolding w4_def r_def w2_def frame_def fraction_def
      by (subst progress_loop.simps) (simp add: now_ts_eq Let_def case_random time_sleep_ok)
    have "fraction < 1" using False by simp
    then have "fraction * 100 < 100" by (rule scale_below)
    then have "py_int (fraction * 100) < 100" by (rule py_int_below)
    with shown have p: "shown_percent frame < 100" by simp
    have "out w4 = out w2" by (simp add: w4_def)
    with rec(2) out2 have "out w' = out w @ (Print frame [CHR 0x0D] # es)"
      by simp
    moreover have "shown_percents (Print frame [CHR 0x0D] # es) = (shown_percent frame # ps) @ [100]"
      using shown_percents_append [of "[Print frame [CHR 0x0D]]" es] rec(3) frames
      by simp
    moreover have "\<forall>q\<in>set (shown_percent frame # ps). q < 100"
      using p rec(4) by simp
    moreover have "\<forall>e\<in>set (Print frame [CHR 0x0D] # es). \<not> is_clear e"
      using rec(5) by (simp add: is_clear_def)
    ultimately show ?thesis using step rec(1)
      by (intro exI [of _ w'] exI [of _ "Print frame [CHR 0x0D] # es"]
          exI [of _ "shown_percent frame # ps"]) simp
  qed
qed

lemma clears_from_out:
  "out w' = out w @ es \<Longrightarrow> \<forall>e\<in>set es. \<not> is_clear e \<Longrightarrow> clears w' = clears w"
  by (simp add: clears_def)

lemma progress_bar_total:
  assumes "0 < duration"
  shows "\<exists>w'. progress_bar_simulation env duration width w = Some (Inr w') \<and> clears w' = clears w"
proof -
  obtain w1 es where "progress_loop env (time_time w) duration width w = Some (Inr w1)"
      "out w1 = out w @ es" "\<forall>e\<in>set es. \<not> is_clear e"
    using progress_loop_total [OF assms] by blast
  then show ?thesis
    by (simp add: progress_bar_simulation_def clears_from_out)
qed

text \<open>
  Claim C6. An invocation of the progress bar with a positive duration returns; among
  the percentages its frames show, 100 occurs exactly once, in the last frame, and no
  frame shows more than 100.
\<close>

theorem progress_bar_once:
  assumes "0 < duration"
  shows "\<exists>w' es. progress_bar_simulation env duration width w = Some (Inr w') \<and>
      out w' = out w @ es \<and> count_list (shown_percents es) 100 = 1 \<and>
      last (shown_percents es) = 100 \<and> (\<forall>p\<in>set (shown_percents es). p \<le> 100)"
proof -
  obtain w1 es ps where loop: "progress_loop env (time_time w) duration width w = Some (Inr w1)"
      "out w1 = out w @ es" "shown_percents es = ps @ [100]" "\<forall>p\<in>set ps. p < 100"
    using progress_loop_total [OF assms] by blast
  let ?w' = "print [] [CHR 0x0A] w1"
  let ?es = "es @ [Print [] [CHR 0x0A]]"
  have ret: "progress_bar_simulation env duration width w = Some (Inr ?w')"
    using loop(1) by (simp add: progress_bar_simulation_def)
  have out: "out ?w' = out w @ ?es"
    using loop(2) by (simp add: out_print)
  have "shown_percents [Print [] [CHR 0x0A]] = []"
    by (simp add: shown_percents_def)
  then have shown: "shown_percents ?es = ps @ [100]"
    using loop(3) by (simp add: shown_percents_append)
  have "100 \<notin> set ps" using loop(4) by auto
  then have "count_list ps 100 = 0" by (simp add: count_list_0_iff)
  then have once: "count_list (shown_percents ?es) 100 = 1"
    using shown by simp
  have "\<forall>p\<in>set (shown_percents ?es). p \<le> 100"
    using shown loop(4) by auto
  with ret out once shown show ?thesis
    by (intro exI [of _ ?w'] exI [of _ ?es]) simp
qed

theorem progress_bar_once_witness:
  "(0::real) < 1.4 \<and>
   (\<exists>w' es. progress_bar_simulation plain_env 1.4 30 (world_of []) = Some (Inr w') \<and>
      out w' = out (world_of []) @ es \<and> count_list (shown_percents es) 100 = 1 \<and>
      last (shown_percents es) = 100)"
proof -
  have h: "(0::real) < 1.4" by simp
  from progress_bar_once [OF h, of plain_env 30 "world_of []"] h show ?thesis
    by blast
qed

section \<open>Clearing the screen\<close>

text \<open>
  Every iteration of the main loop returns and counts one, two or three lines. It clears
  the screen exactly when \<open>clear_due\<close> holds at its start; an iteration that runs a
  progress bar counts three lines.
\<close>

lemma bar_duration_positive: "0 < 0.8 + (2.5 - 0.8) * fst (random w)"
  using random_range [of w] by simp

lemma clears_clear_screen: "clears (clear_screen env w) = Suc (clears w)"
  by (simp add: clear_screen_def now_ts_eq os_system_def print_def clears_def is_clear_def Let_def)

lemma quote_or_line_total:
  "\<exists>w'. quote_or_line env use_api (lc, w) = Some (Inr (lc + 1, w')) \<and> clears w' = clears w"
proof -
  have line: "\<exists>w'. Some (emit_line env (lc, wq)) = Some (Inr (lc + 1, w')) \<and> clears w' = clears w"
    if "clears wq = clears w" for wq
    using emit_line_total [of wq env lc] that by auto
  show ?thesis
  proof (cases "use_api \<and> have_requests env")
    case False
    then show ?thesis using line [of w] by (auto simp: quote_or_line_def)
  next
    case True
    show ?thesis
    proof (cases "fst (random w) < API_QUOTE_FREQ")
      case False
      with True show ?thesis using line [of "after_draw w"]
        by (simp add: quote_or_line_def case_random)
    next
      case draw: True
      obtain q w2 where f: "fetch_quote env (after_draw w) = (q, w2)"
        by (cases "fetch_quote env (after_draw w)")
      have "w2 = after_draw w \<or> w2 = (after_draw w)\<lparr>net := stl (net (after_draw w))\<rparr>"
        using fetch_quote_world [of env "after_draw w"] f by simp
      then have c2: "clears w2 = clears w" by (auto simp: clears_def)
      show ?thesis
      proof (cases "q = None \<or> q = Some []")
        case True
        with \<open>use_api \<and> have_requests env\<close> draw f line [OF c2] show ?thesis
          by (auto simp: quote_or_line_def case_random)
      next
        case False
        then obtain quote where q: "q = Some quote" "quote \<noteq> []" by auto
        let ?w4 = "print (if COLOR env then colored env (stamp_of w2 @ '' QUOTE: '' @ quote) Fore_MAGENTA
                          else stamp_of w2 @ '' QUOTE: '' @ quote) [CHR 0x0A] (after_now w2)"
        let ?u = "TICK_MIN + (TICK_MAX - TICK_MIN) * fst (random ?w4)"
        have "0 \<le> ?u + 0.15"
          using random_range [of ?w4] by (simp add: TICK_MIN_def TICK_MAX_def)
        then have "quote_or_line env use_api (lc, w) =
            Some (Inr (lc + 1, (after_draw ?w4)\<lparr>now := now (after_draw ?w4) + (?u + 0.15)\<rparr>))"
          using \<open>use_api \<and> have_requests env\<close> draw
          by (simp add: quote_or_line_def case_random f q now_ts_eq Let_def case_uniform time_sleep_ok)
        then show ?thesis using c2 by simp
      qed
    qed
  qed
qed

lemma main_iter_total:
  "\<exists>lc' w'. main_iter env use_api ce (lc, w) = Some (Inr (lc', w')) \<and> lc < lc' \<and> lc' \<le> lc + 3 \<and>
      clears w' = clears w + (if clear_due ce lc then 1 else 0) \<and>
      (\<not> clear_due ce lc \<and> fst (random w) < PROGRESS_BAR_CHANCE \<longrightarrow> lc' = lc + 3)"
proof -
  define w1 where "w1 = (if clear_due ce lc then clear_screen env w else w)"
  have c1: "clears w1 = clears w + (if clear_due ce lc then 1 else 0)"
    by (simp add: w1_def clears_clear_screen)
  have same: "\<not> clear_due ce lc \<Longrightarrow> w1 = w"
    by (simp add: w1_def)
  show ?thesis
  proof (cases "fst (random w1) < PROGRESS_BAR_CHANCE")
    case True
    let ?d = "0.8 + (2.5 - 0.8) * fst (random (after_draw w1))"
    obtain w' where "progress_bar_simulation env ?d 30 (after_draw (after_draw w1)) = Some (Inr w')"
        "clears w' = clears (after_draw (after_draw w1))"
      using progress_bar_total [OF bar_duration_positive] by blast
    with True c1 have "main_iter env use_api ce (lc, w) = Some (Inr (lc + 3, w'))"
        "clears w' = clears w + (if clear_due ce lc then 1 else 0)"
      by (simp_all add: main_iter_def w1_def [symmetric] case_random case_uniform
          SHOW_PROGRESS_BARS_def)
    then show ?thesis by simp
  next
    case no_bar: False
    show ?thesis
    proof (cases "fst (random (after_draw w1)) < SPINNER_CHANCE")
      case True
      let ?d = "0.6 + (1.8 - 0.6) * fst (random (after_draw (after_draw w1)))"
      obtain w' where "spinner ?d (after_draw (after_draw (after_draw w1))) = Some (Inr w')"
          "clears w' = clears (after_draw (after_draw (after_draw w1)))"
        using spinner_total by blast
      with True no_bar c1 have "main_iter env use_api ce (lc, w) = Some (Inr (lc + 2, w'))"
          "clears w' = clears w + (if clear_due ce lc then 1 else 0)"
        by (simp_all add: main_iter_def spinner_or_rest_def w1_def [symmetric] case_random
            case_uniform SHOW_PROGRESS_BARS_def)
      then show ?thesis using no_bar same by auto
    next
      case False
      obtain w' where "quote_or_line env use_api (lc, after_draw (after_draw w1)) = Some (Inr (lc + 1, w'))"
          "clears w' = clears (after_draw (after_draw w1))"
        using quote_or_line_total by blast
      with False no_bar c1 have "main_iter env use_api ce (lc, w) = Some (Inr (lc + 1, w'))"
          "clears w' = clears w + (if clear_due ce lc then 1 else 0)"
        by (simp_all add: main_iter_def spinner_or_rest_def w1_def [symmetric] case_random
            SHOW_PROGRESS_BARS_def)
      then show ?thesis using no_bar same by auto
    qed
  qed
qed

lemma main_loop_total:
  "\<exists>lc' w'. main_loop env use_api ce n (lc, w) = Some (Inr (lc', w')) \<and> lc + int n \<le> lc' \<and>
      (\<not> 0 < ce \<longrightarrow> clears w' = clears w)"
proof (induction n arbitrary: lc w)
  case 0
  show ?case by simp
next
  case (Suc n)
  obtain lc1 w1 where it: "main_iter env use_api ce (lc, w) = Some (Inr (lc1, w1))" "lc < lc1"
      "clears w1 = clears w + (if clear_due ce lc then 1 else 0)"
    using main_iter_total [of env use_api ce lc w] by blast
  obtain lc' w' where rest: "main_loop env use_api ce n (lc1, w1) = Some (Inr (lc', w'))"
      "lc1 + int n \<le> lc'" "\<not> 0 < ce \<longrightarrow> clears w' = clears w1"
    using Suc [of lc1 w1] by blast
  have "\<not> 0 < ce \<Longrightarrow> \<not> clear_due ce lc" by (simp add: clear_due_def)
  with it rest show ?case by auto
qed

text \<open>
  Claim C9. With \<^verbatim>\<open>--clear-every 0\<close> the screen is never cleared: after any number of
  iterations, from any world, the loop has counted at least one line per iteration and
  the number of \<^verbatim>\<open>os.system\<close> calls in the output has not changed.
\<close>

theorem clear_every_zero:
  "\<exists>line_counter w'.
      main_loop env use_api 0 n (0, w) = Some (Inr (line_counter, w')) \<and>
      int n \<le> line_counter \<and> clears w' = clears w"
  using main_loop_total [of env use_api 0 n 0 w] by auto

theorem clear_every_zero_witness:
  "\<exists>line_counter w'.
      main_loop plain_env True 0 7 (0, world_of []) = Some (Inr (line_counter, w')) \<and>
      int 7 \<le> line_counter \<and> clears w' = 0"
proof -
  have "clears (world_of []) = 0"
    by (simp add: clears_def world_of_def world_at_def)
  with clear_every_zero [of plain_env True 7 "world_of []"] show ?thesis
    by simp
qed

text \<open>
  Claim C10. With a negative \<^verbatim>\<open>--clear-every\<close> the screen is never cleared either: the
  guard asks for \<^verbatim>\<open>clear_every > 0\<close>.
\<close>

theorem clear_every_negative:
  assumes "clear_every < 0"
  shows "\<exists>line_counter w'.
      main_loop env use_api clear_every n (0, w) = Some (Inr (line_counter, w')) \<and>
      int n \<le> line_counter \<and> clears w' = clears w"
  using main_loop_total [of env use_api clear_every n 0 w] assms by auto

theorem clear_every_negative_witness:
  "(- 5 :: int) < 0 \<and>
   (\<exists>line_counter w'.
      main_loop plain_env True (- 5) 7 (0, world_of []) = Some (Inr (line_counter, w')) \<and>
      int 7 \<le> line_counter \<and> clears w' = 0)"
proof -
  have h: "(- 5 :: int) < 0" by simp
  have "clears (world_of []) = 0"
    by (simp add: clears_def world_of_def world_at_def)
  with clear_every_negative [OF h, of plain_env True 7 "world_of []"] show ?thesis
    by simp
qed

text \<open>
  Claim C8 fails on the code. With \<^verbatim>\<open>--clear-every 2\<close> and a first draw below 0.06, the
  first iteration runs a progress bar and the counter goes from 0 to 3; the guard tests
  \<^verbatim>\<open>line_counter % clear_every == 0\<close>, which 3 does not satisfy. After two iterations at
  least four lines are counted and the screen has not been cleared once.
\<close>

theorem clear_skipped:
  "\<exists>line_counter w'.
      main_loop plain_env False 2 2 (0, world_of []) = Some (Inr (line_counter, w')) \<and>
      4 \<le> line_counter \<and> clears w' = 0"
proof -
  have start: "clears (world_of []) = 0" "fst (random (world_of [])) < PROGRESS_BAR_CHANCE"
    by (simp_all add: clears_def world_of_def random_world_at PROGRESS_BAR_CHANCE_def)
      (simp add: world_at_def)
  have "\<not> clear_due 2 0" by (simp add: clear_due_def)
  with start obtain w1 where
    one: "main_iter plain_env False 2 (0, world_of []) = Some (Inr (3, w1))" "clears w1 = 0"
    using main_iter_total [of plain_env False 2 0 "world_of []"] by auto
  have "\<not> clear_due 2 3" by (simp add: clear_due_def)
  with one(2) obtain lc2 w2 where
    two: "main_iter plain_env False 2 (3, w1) = Some (Inr (lc2, w2))" "3 < lc2" "clears w2 = 0"
    using main_iter_total [of plain_env False 2 3 w1] by auto
  have "main_loop plain_env False 2 2 (0, world_of []) = Some (Inr (lc2, w2))"
    using one(1) two(1) by (simp add: numeral_2_eq_2)
  with two show ?thesis by auto
qed

end
